theory Spec2Isabelle
  imports Main
begin

section \<open>Data model of \<open>app.py\<close>\<close>

text \<open>
  The voting service keeps two SQLite tables, \<open>proposals\<close> and \<open>votes\<close>, and serves
  each request by a short sequence of SQL statements. The tables are modelled as lists
  of rows in insertion order, a connection as the committed database value, and every
  handler as a function from the database (and the clock readings the handler makes) to
  the new database and either the raised error or the returned value.

  A naive \<open>datetime\<close> is an integer number of microseconds since
  \<open>0001-01-01T00:00:00\<close>; \<open>isoformat\<close> followed by \<open>fromisoformat\<close> is the identity on
  such values, so the text columns hold the integer itself.

  A Python integer is unbounded, and so is the \<open>int\<close> path parameter of a route; an
  SQLite \<open>INTEGER\<close> has 64 bits. \<open>sqlite3\<close> raises \<open>OverflowError\<close> when it is asked
  to bind an integer that does not fit, and an \<open>AUTOINCREMENT\<close> key fails with
  \<open>SQLITE_FULL\<close> (\<open>OperationalError\<close>) when no id is left.
\<close>

type_synonym datetime = int

datatype ProposalStatus = active | closed | expired

record proposal_row =
  p_id :: int
  p_title :: string
  p_description :: string
  p_created_at :: datetime
  p_deadline :: datetime
  p_status :: ProposalStatus

record vote_row =
  v_id :: int
  v_proposal_id :: int
  v_voter_name :: string
  v_vote :: string
  v_voted_at :: datetime

text \<open>
  The two \<open>AUTOINCREMENT\<close> keys keep their high-water mark in \<open>sqlite_sequence\<close>;
  the model carries one counter for each table.
\<close>

record db =
  proposals :: "proposal_row list"
  votes :: "vote_row list"
  proposals_seq :: int
  votes_seq :: int

definition init_db :: db where
  "init_db = \<lparr>proposals = [], votes = [], proposals_seq = 0, votes_seq = 0\<rparr>"

record ProposalCreate =
  title :: string
  description :: string
  days_open :: "int option"

record VoteCreate =
  voter_name :: string
  vote :: string

record ProposalOut =
  out_id :: int
  out_title :: string
  out_description :: string
  out_created_at :: datetime
  out_deadline :: datetime
  out_status :: ProposalStatus
  yes_count :: nat
  no_count :: nat
  abstain_count :: nat

text \<open>
  One constructor for each place where a handler raises: the six \<open>HTTPException\<close>s
  of the source, the 422 answer of the request validation, and the Python exceptions
  that no handler catches.
\<close>

datatype error =
    ProposalNotFound
  | VoteNotFound
  | VotingNotAllowed
  | AlreadyVoted
  | RevokeNotAllowed
  | AdminTokenRequired
  | RequestValidationError
  | TypeError
  | OverflowError
  | IntegrityError
  | OperationalError

fun status_code :: "error \<Rightarrow> nat" where
  "status_code ProposalNotFound = 404"
| "status_code VoteNotFound = 404"
| "status_code VotingNotAllowed = 400"
| "status_code AlreadyVoted = 400"
| "status_code RevokeNotAllowed = 400"
| "status_code AdminTokenRequired = 403"
| "status_code RequestValidationError = 422"
| "status_code TypeError = 500"
| "status_code OverflowError = 500"
| "status_code IntegrityError = 500"
| "status_code OperationalError = 500"

text \<open>The error kinds of the specification, and the kind of each raised error.\<close>

datatype error_kind = NotFound | Conflict | InvalidState | Forbidden | Validation | Unhandled

fun kind :: "error \<Rightarrow> error_kind" where
  "kind ProposalNotFound = NotFound"
| "kind VoteNotFound = NotFound"
| "kind VotingNotAllowed = InvalidState"
| "kind AlreadyVoted = Conflict"
| "kind RevokeNotAllowed = InvalidState"
| "kind AdminTokenRequired = Forbidden"
| "kind RequestValidationError = Validation"
| "kind TypeError = Unhandled"
| "kind OverflowError = Unhandled"
| "kind IntegrityError = Unhandled"
| "kind OperationalError = Unhandled"

section \<open>SQL statements\<close>

definition sqlite_int :: "int \<Rightarrow> bool" where
  \<comment> \<open>the integers that \<open>sqlite3\<close> can bind: signed, 64 bits\<close>
  "sqlite_int i \<longleftrightarrow> - (2 ^ 63) \<le> i \<and> i < 2 ^ 63"

definition proposal_with_id :: "db \<Rightarrow> int \<Rightarrow> proposal_row option" where
  \<comment> \<open>the first row of \<open>proposals\<close> with the id\<close>
  "proposal_with_id conn proposal_id = find (\<lambda>r. p_id r = proposal_id) (proposals conn)"

definition select_proposal :: "db \<Rightarrow> int \<Rightarrow> error + proposal_row option" where
  \<comment> \<open>\<open>SELECT * FROM proposals WHERE id=?\<close>, \<open>fetchone\<close>; the parameter is bound first\<close>
  "select_proposal conn proposal_id =
     (if sqlite_int proposal_id then Inr (proposal_with_id conn proposal_id)
      else Inl OverflowError)"

definition update_status :: "db \<Rightarrow> ProposalStatus \<Rightarrow> int \<Rightarrow> db" where
  \<comment> \<open>\<open>UPDATE proposals SET status=? WHERE id=?\<close>, with an id already bound\<close>
  "update_status conn st proposal_id =
     conn\<lparr>proposals :=
       map (\<lambda>r. if p_id r = proposal_id then r\<lparr>p_status := st\<rparr> else r) (proposals conn)\<rparr>"

definition select_proposal_ids :: "db \<Rightarrow> int list" where
  \<comment> \<open>\<open>SELECT id FROM proposals\<close>\<close>
  "select_proposal_ids conn = map p_id (proposals conn)"

definition next_rowid :: "int \<Rightarrow> int list \<Rightarrow> int" where
  \<comment> \<open>\<open>AUTOINCREMENT\<close>: one more than the largest id the table holds or ever held\<close>
  "next_rowid seq ids = fold max ids seq + 1"

definition insert_proposal ::
  "db \<Rightarrow> string \<Rightarrow> string \<Rightarrow> datetime \<Rightarrow> datetime \<Rightarrow> ProposalStatus
     \<Rightarrow> error + db \<times> int" where
  \<comment> \<open>\<open>INSERT INTO proposals (title, description, created_at, deadline, status)\<close>;
      the second component is \<open>lastrowid\<close>; the insert fails when no id is left\<close>
  "insert_proposal conn t d c dl st =
     (let pid = next_rowid (proposals_seq conn) (map p_id (proposals conn))
      in if \<not> sqlite_int pid then Inl OperationalError
         else Inr (conn\<lparr>proposals := proposals conn @
                       [\<lparr>p_id = pid, p_title = t, p_description = d, p_created_at = c,
                         p_deadline = dl, p_status = st\<rparr>],
                     proposals_seq := pid\<rparr>, pid))"

definition vote_with_id :: "db \<Rightarrow> int \<Rightarrow> vote_row option" where
  \<comment> \<open>the first row of \<open>votes\<close> with the id\<close>
  "vote_with_id conn vote_id = find (\<lambda>v. v_id v = vote_id) (votes conn)"

definition select_vote :: "db \<Rightarrow> int \<Rightarrow> error + vote_row option" where
  \<comment> \<open>\<open>SELECT * FROM votes WHERE id=?\<close>, \<open>fetchone\<close>; the parameter is bound first\<close>
  "select_vote conn vote_id =
     (if sqlite_int vote_id then Inr (vote_with_id conn vote_id) else Inl OverflowError)"

definition select_vote_of :: "db \<Rightarrow> int \<Rightarrow> string \<Rightarrow> int option" where
  \<comment> \<open>\<open>SELECT id FROM votes WHERE proposal_id=? AND voter_name=?\<close>, \<open>fetchone\<close>,
      with the proposal id that \<open>get_proposal_or_404\<close> has bound\<close>
  "select_vote_of conn proposal_id name =
     map_option v_id
       (find (\<lambda>v. v_proposal_id v = proposal_id \<and> v_voter_name v = name) (votes conn))"

definition insert_vote ::
  "db \<Rightarrow> int \<Rightarrow> string \<Rightarrow> string \<Rightarrow> datetime \<Rightarrow> error + db \<times> int" where
  \<comment> \<open>\<open>INSERT INTO votes (proposal_id, voter_name, vote, voted_at)\<close>: the new id is
      taken first, then the table's \<open>CHECK(vote IN ('yes','no','abstain'))\<close> and
      \<open>UNIQUE(proposal_id, voter_name)\<close> are tested\<close>
  "insert_vote conn proposal_id name choice voted =
     (let vid = next_rowid (votes_seq conn) (map v_id (votes conn))
      in if \<not> sqlite_int vid then Inl OperationalError
         else if choice \<notin> {''yes'', ''no'', ''abstain''} then Inl IntegrityError
         else if (proposal_id, name) \<in>
                   set (map (\<lambda>v. (v_proposal_id v, v_voter_name v)) (votes conn))
           then Inl IntegrityError
         else
           Inr (conn\<lparr>votes := votes conn @
                     [\<lparr>v_id = vid, v_proposal_id = proposal_id, v_voter_name = name,
                       v_vote = choice, v_voted_at = voted\<rparr>],
                   votes_seq := vid\<rparr>, vid))"

definition delete_vote :: "db \<Rightarrow> int \<Rightarrow> db" where
  \<comment> \<open>\<open>DELETE FROM votes WHERE id=?\<close>, with an id already bound\<close>
  "delete_vote conn vote_id = conn\<lparr>votes := filter (\<lambda>v. v_id v \<noteq> vote_id) (votes conn)\<rparr>"

definition select_vote_counts :: "db \<Rightarrow> int \<Rightarrow> (string \<times> nat) list" where
  \<comment> \<open>\<open>SELECT vote, COUNT(*) as c FROM votes WHERE proposal_id=? GROUP BY vote\<close>:
      one row for each choice that occurs, with the number of its rows; every caller
      passes an id that an earlier statement has bound, or \<open>lastrowid\<close>\<close>
  "select_vote_counts conn proposal_id =
     (let vs = map v_vote (filter (\<lambda>v. v_proposal_id v = proposal_id) (votes conn))
      in map (\<lambda>x. (x, count_list vs x)) (remdups vs))"

section \<open>Helpers\<close>

text \<open>
  \<open>get_proposal_or_404\<close>: \<open>now\<close> is the value of \<open>datetime.utcnow()\<close> in the expiry
  test. The row read again after the update cannot be missing; were it so, the callers'
  subscript on \<open>None\<close> would raise \<open>TypeError\<close>. The \<open>UPDATE\<close> binds the id that
  the \<open>SELECT\<close> before it has bound.
\<close>

definition get_proposal_or_404 :: "db \<Rightarrow> int \<Rightarrow> datetime \<Rightarrow> db \<times> (error + proposal_row)" where
  "get_proposal_or_404 conn proposal_id now =
     (case select_proposal conn proposal_id of
        Inl e \<Rightarrow> (conn, Inl e)
      | Inr None \<Rightarrow> (conn, Inl ProposalNotFound)
      | Inr (Some row) \<Rightarrow>
          if p_status row = active \<and> now > p_deadline row then
            (let conn' = update_status conn expired proposal_id
             in case select_proposal conn' proposal_id of
                  Inl e \<Rightarrow> (conn', Inl e)
                | Inr None \<Rightarrow> (conn', Inl TypeError)
                | Inr (Some row') \<Rightarrow> (conn', Inr row'))
          else (conn, Inr row))"

fun counts_loop :: "(string \<rightharpoonup> nat) \<Rightarrow> (string \<times> nat) list \<Rightarrow> (string \<rightharpoonup> nat)" where
  "counts_loop counts [] = counts"
| "counts_loop counts (r # rs) = counts_loop (counts(fst r \<mapsto> snd r)) rs"

definition tally_votes :: "db \<Rightarrow> int \<Rightarrow> nat \<times> nat \<times> nat" where
  "tally_votes conn proposal_id =
     (let counts = counts_loop [''yes'' \<mapsto> 0, ''no'' \<mapsto> 0, ''abstain'' \<mapsto> 0]
                     (select_vote_counts conn proposal_id)
      in (the (counts ''yes''), the (counts ''no''), the (counts ''abstain'')))"

definition proposal_out :: "proposal_row \<Rightarrow> nat \<times> nat \<times> nat \<Rightarrow> ProposalOut" where
  \<comment> \<open>the \<open>ProposalOut(...)\<close> expression shared by the four handlers that return one\<close>
  "proposal_out row t =
     \<lparr>out_id = p_id row, out_title = p_title row, out_description = p_description row,
      out_created_at = p_created_at row, out_deadline = p_deadline row,
      out_status = p_status row,
      yes_count = fst t, no_count = fst (snd t), abstain_count = snd (snd t)\<rparr>"

section \<open>Request validation\<close>

text \<open>
  A JSON field of the request body that may be left out or be \<open>null\<close>.
  \<open>ProposalCreate\<close> requires \<open>title\<close> and \<open>description\<close> of length at least 1 and
  declares \<open>days_open: Optional[int] = 2\<close>: a missing field takes the default, an
  explicit \<open>null\<close> stays \<open>None\<close>, and no bound is placed on the integer.
\<close>

datatype 'a field = Missing | Null | Given 'a

record ProposalCreate_body =
  body_title :: string
  body_description :: string
  body_days_open :: "int field"

definition validate_ProposalCreate :: "ProposalCreate_body \<Rightarrow> error + ProposalCreate" where
  "validate_ProposalCreate b =
     (if length (body_title b) < 1 \<or> length (body_description b) < 1
        then Inl RequestValidationError
      else Inr \<lparr>title = body_title b, description = body_description b,
                days_open = (case body_days_open b of
                               Missing \<Rightarrow> Some 2 | Null \<Rightarrow> None | Given n \<Rightarrow> Some n)\<rparr>)"

text \<open>
  \<open>VoteCreate\<close>: \<open>voter_name\<close> of length at least 1 and \<open>vote\<close> matched by
  \<open>re.match\<close> against \<open>^(yes|no|abstain)$\<close>, where \<open>$\<close> also matches before one
  final newline.
\<close>

definition vote_regex_match :: "string \<Rightarrow> bool" where
  "vote_regex_match s =
     (s \<in> set [''yes'', ''no'', ''abstain'',
               ''yes'' @ [CHR 0x0A], ''no'' @ [CHR 0x0A], ''abstain'' @ [CHR 0x0A]])"

definition validate_VoteCreate :: "VoteCreate \<Rightarrow> error + VoteCreate" where
  "validate_VoteCreate b =
     (if length (voter_name b) < 1 \<or> \<not> vote_regex_match (vote b)
        then Inl RequestValidationError
      else Inr b)"

section \<open>Dates\<close>

definition DATETIME_MAX :: datetime where
  \<comment> \<open>\<open>datetime.max\<close>, 9999-12-31T23:59:59.999999\<close>
  "DATETIME_MAX = 3652059 * 86400000000 - 1"

definition timedelta_days :: "int \<Rightarrow> error + int" where
  \<comment> \<open>\<open>timedelta(days=n)\<close> raises \<open>OverflowError\<close> beyond 999999999 days\<close>
  "timedelta_days n =
     (if \<bar>n\<bar> > 999999999 then Inl OverflowError else Inr (n * 86400000000))"

definition datetime_add :: "datetime \<Rightarrow> int \<Rightarrow> error + datetime" where
  \<comment> \<open>\<open>datetime + timedelta\<close> raises \<open>OverflowError\<close> outside years 1 to 9999\<close>
  "datetime_add t delta =
     (if 0 \<le> t + delta \<and> t + delta \<le> DATETIME_MAX then Inr (t + delta)
      else Inl OverflowError)"

section \<open>Routes\<close>

text \<open>
  Every handler returns the committed database and its outcome. A handler that raises
  after \<open>get_proposal_or_404\<close> has committed the expiry keeps that write.
  Clock readings are arguments, in the order in which the handler takes them.
\<close>

definition create_proposal ::
  "db \<Rightarrow> ProposalCreate \<Rightarrow> datetime \<Rightarrow> datetime \<Rightarrow> db \<times> (error + ProposalOut)" where
  "create_proposal conn payload created_at now =
     (case days_open payload of
        None \<Rightarrow> (conn, Inl TypeError)
      | Some n \<Rightarrow>
          (case timedelta_days n of
             Inl e \<Rightarrow> (conn, Inl e)
           | Inr delta \<Rightarrow>
               (case datetime_add created_at delta of
                  Inl e \<Rightarrow> (conn, Inl e)
                | Inr deadline \<Rightarrow>
                    (case insert_proposal conn (title payload) (description payload)
                            created_at deadline active of
                       Inl e \<Rightarrow> (conn, Inl e)
                     | Inr (conn1, pid) \<Rightarrow>
                         (case get_proposal_or_404 conn1 pid now of
                            (conn2, Inl e) \<Rightarrow> (conn2, Inl e)
                          | (conn2, Inr row) \<Rightarrow>
                              (conn2, Inr (proposal_out row (tally_votes conn2 pid))))))))"

text \<open>
  The loop of \<open>get_proposals\<close>; \<open>clock i\<close> is the clock reading of iteration \<open>i\<close>.
\<close>

fun get_proposals_loop ::
  "db \<Rightarrow> int list \<Rightarrow> (nat \<Rightarrow> datetime) \<Rightarrow> nat \<Rightarrow> ProposalOut list
     \<Rightarrow> db \<times> (error + ProposalOut list)" where
  "get_proposals_loop conn [] clock i results = (conn, Inr results)"
| "get_proposals_loop conn (pid # ids) clock i results =
     (case get_proposal_or_404 conn pid (clock i) of
        (conn', Inl e) \<Rightarrow> (conn', Inl e)
      | (conn', Inr row) \<Rightarrow>
          get_proposals_loop conn' ids clock (Suc i)
            (results @ [proposal_out row (tally_votes conn' pid)]))"

definition get_proposals :: "db \<Rightarrow> (nat \<Rightarrow> datetime) \<Rightarrow> db \<times> (error + ProposalOut list)" where
  "get_proposals conn clock = get_proposals_loop conn (select_proposal_ids conn) clock 0 []"

definition get_proposal :: "db \<Rightarrow> int \<Rightarrow> datetime \<Rightarrow> db \<times> (error + ProposalOut)" where
  "get_proposal conn proposal_id now =
     (case get_proposal_or_404 conn proposal_id now of
        (conn', Inl e) \<Rightarrow> (conn', Inl e)
      | (conn', Inr row) \<Rightarrow>
          (conn', Inr (proposal_out row (tally_votes conn' proposal_id))))"

text \<open>
  \<open>submit_vote\<close> returns a \<open>VoteOut\<close>, which has the fields of the vote row.
  \<open>now\<close> is the reading of the expiry test, \<open>voted_at\<close> the later one.
\<close>

definition submit_vote ::
  "db \<Rightarrow> int \<Rightarrow> VoteCreate \<Rightarrow> datetime \<Rightarrow> datetime \<Rightarrow> db \<times> (error + vote_row)" where
  "submit_vote conn proposal_id payload now voted_at =
     (case get_proposal_or_404 conn proposal_id now of
        (conn1, Inl e) \<Rightarrow> (conn1, Inl e)
      | (conn1, Inr row) \<Rightarrow>
          if p_status row \<noteq> active then (conn1, Inl VotingNotAllowed)
          else
            (case select_vote_of conn1 proposal_id (voter_name payload) of
               Some _ \<Rightarrow> (conn1, Inl AlreadyVoted)
             | None \<Rightarrow>
                 (case insert_vote conn1 proposal_id (voter_name payload) (vote payload)
                         voted_at of
                    Inl e \<Rightarrow> (conn1, Inl e)
                  | Inr (conn2, vid) \<Rightarrow>
                      (case select_vote conn2 vid of
                         Inl e \<Rightarrow> (conn2, Inl e)
                       | Inr None \<Rightarrow> (conn2, Inl TypeError)
                       | Inr (Some v) \<Rightarrow> (conn2, Inr v)))))"

definition revoke_vote :: "db \<Rightarrow> int \<Rightarrow> datetime \<Rightarrow> db \<times> (error + unit)" where
  "revoke_vote conn vote_id now =
     (case select_vote conn vote_id of
        Inl e \<Rightarrow> (conn, Inl e)
      | Inr None \<Rightarrow> (conn, Inl VoteNotFound)
      | Inr (Some v) \<Rightarrow>
          (case get_proposal_or_404 conn (v_proposal_id v) now of
             (conn1, Inl e) \<Rightarrow> (conn1, Inl e)
           | (conn1, Inr p) \<Rightarrow>
               if p_status p \<noteq> active then (conn1, Inl RevokeNotAllowed)
               else (delete_vote conn1 vote_id, Inr ())))"

definition ADMIN_TOKEN :: string where
  "ADMIN_TOKEN = ''secret-admin-token''"

definition close_proposal ::
  "db \<Rightarrow> int \<Rightarrow> string option \<Rightarrow> datetime \<Rightarrow> db \<times> (error + ProposalOut)" where
  "close_proposal conn proposal_id x_admin_token now =
     (if x_admin_token \<noteq> Some ADMIN_TOKEN then (conn, Inl AdminTokenRequired)
      else
        (case select_proposal conn proposal_id of
           Inl e \<Rightarrow> (conn, Inl e)
         | Inr None \<Rightarrow> (conn, Inl ProposalNotFound)
         | Inr (Some _) \<Rightarrow>
             (let conn1 = update_status conn closed proposal_id
              in case get_proposal_or_404 conn1 proposal_id now of
                   (conn2, Inl e) \<Rightarrow> (conn2, Inl e)
                 | (conn2, Inr row) \<Rightarrow>
                     (conn2, Inr (proposal_out row (tally_votes conn2 proposal_id))))))"

definition list_votes :: "db \<Rightarrow> vote_row list" where
  "list_votes conn = votes conn"

section \<open>Requests\<close>

text \<open>
  A request names its route, its validated path parameters, its body as received, and
  the clock readings its handler will take. The body is validated before the handler
  runs; a body that fails validation leaves the database alone.
\<close>

datatype request =
    PostProposal ProposalCreate_body datetime datetime
  | GetProposals "nat \<Rightarrow> datetime"
  | GetProposal int datetime
  | PostVote int VoteCreate datetime datetime
  | DeleteVote int datetime
  | PatchClose int "string option" datetime
  | GetVotes
  | GetHealth

definition post_proposal ::
  "db \<Rightarrow> ProposalCreate_body \<Rightarrow> datetime \<Rightarrow> datetime \<Rightarrow> db \<times> (error + ProposalOut)" where
  \<comment> \<open>\<open>POST /proposals/\<close>: validation of the body, then \<open>create_proposal\<close>\<close>
  "post_proposal conn b created_at now =
     (case validate_ProposalCreate b of
        Inl e \<Rightarrow> (conn, Inl e)
      | Inr payload \<Rightarrow> create_proposal conn payload created_at now)"

definition post_vote ::
  "db \<Rightarrow> int \<Rightarrow> VoteCreate \<Rightarrow> datetime \<Rightarrow> datetime \<Rightarrow> db \<times> (error + vote_row)" where
  \<comment> \<open>\<open>POST /proposals/{proposal_id}/vote\<close>: validation of the body, then \<open>submit_vote\<close>\<close>
  "post_vote conn proposal_id b now voted_at =
     (case validate_VoteCreate b of
        Inl e \<Rightarrow> (conn, Inl e)
      | Inr payload \<Rightarrow> submit_vote conn proposal_id payload now voted_at)"

fun step :: "db \<Rightarrow> request \<Rightarrow> db" where
  "step conn (PostProposal b created_at now) = fst (post_proposal conn b created_at now)"
| "step conn (GetProposals clock) = fst (get_proposals conn clock)"
| "step conn (GetProposal proposal_id now) = fst (get_proposal conn proposal_id now)"
| "step conn (PostVote proposal_id b now voted_at) =
     fst (post_vote conn proposal_id b now voted_at)"
| "step conn (DeleteVote vote_id now) = fst (revoke_vote conn vote_id now)"
| "step conn (PatchClose proposal_id x_admin_token now) =
     fst (close_proposal conn proposal_id x_admin_token now)"
| "step conn GetVotes = conn"
| "step conn GetHealth = conn"

definition run :: "db \<Rightarrow> request list \<Rightarrow> db" where
  "run conn rs = foldl step conn rs"

section \<open>Notions used in the statements\<close>

text \<open>
  The number of stored votes of a proposal with a given choice.
\<close>

definition count_votes :: "db \<Rightarrow> int \<Rightarrow> string \<Rightarrow> nat" where
  "count_votes conn proposal_id choice =
     length (filter (\<lambda>v. v_proposal_id v = proposal_id \<and> v_vote v = choice) (votes conn))"

text \<open>
  A database for the concrete instances: an active proposal with a two-day window and two
  votes (a third one was revoked), and an expired proposal created with \<open>days_open = 0\<close>.
  It is reached from the empty database by a sequence of requests.
\<close>

definition example_db :: db where
  "example_db =
     \<lparr>proposals =
        [\<lparr>p_id = 1, p_title = ''Park'', p_description = ''Plant trees'', p_created_at = 0,
          p_deadline = 172800000000, p_status = active\<rparr>,
         \<lparr>p_id = 2, p_title = ''Pool'', p_description = ''Fix the pool'', p_created_at = 10,
          p_deadline = 10, p_status = expired\<rparr>],
      votes =
        [\<lparr>v_id = 1, v_proposal_id = 1, v_voter_name = ''Alice'', v_vote = ''yes'',
          v_voted_at = 5\<rparr>,
         \<lparr>v_id = 3, v_proposal_id = 1, v_voter_name = ''Carol'', v_vote = ''abstain'',
          v_voted_at = 7\<rparr>],
      proposals_seq = 2, votes_seq = 3\<rparr>"

text \<open>
  The stored status of a proposal, as \<open>SELECT\<close> sees it.
\<close>

definition status_of :: "db \<Rightarrow> int \<Rightarrow> ProposalStatus option" where
  "status_of conn proposal_id = map_option p_status (proposal_with_id conn proposal_id)"

text \<open>
  Two databases that differ at most by proposals that went from active to expired.
\<close>

definition lazy_expiry :: "db \<Rightarrow> db \<Rightarrow> bool" where
  "lazy_expiry a b \<longleftrightarrow>
     votes b = votes a \<and> votes_seq b = votes_seq a \<and> proposals_seq b = proposals_seq a \<and>
     map p_id (proposals b) = map p_id (proposals a) \<and>
     (\<forall>pid st. status_of a pid = Some st \<longrightarrow>
        status_of b pid = Some st \<or> (st = active \<and> status_of b pid = Some expired))"

text \<open>
  The effective status of a proposal at a clock reading: the status of the row that
  \<open>get_proposal_or_404\<close> returns.
\<close>

definition effective_status :: "db \<Rightarrow> int \<Rightarrow> datetime \<Rightarrow> ProposalStatus option" where
  "effective_status conn proposal_id now =
     (case snd (get_proposal_or_404 conn proposal_id now) of
        Inl e \<Rightarrow> None
      | Inr row \<Rightarrow> Some (p_status row))"

text \<open>
  The answer for proposal 1 of the example, and the vote that a fourth voter casts on it.
\<close>

definition example_out :: "ProposalStatus \<Rightarrow> ProposalOut" where
  "example_out st =
     \<lparr>out_id = 1, out_title = ''Park'', out_description = ''Plant trees'', out_created_at = 0,
      out_deadline = 172800000000, out_status = st,
      yes_count = 1, no_count = 0, abstain_count = 1\<rparr>"

definition example_vote :: vote_row where
  "example_vote =
     \<lparr>v_id = 4, v_proposal_id = 1, v_voter_name = ''Dave'', v_vote = ''no'', v_voted_at = 21\<rparr>"

text \<open>
  The constraints of the schema: the two primary keys, the uniqueness of
  \<open>(proposal_id, voter_name)\<close>, the \<open>CHECK\<close> on the choice and the foreign key.
\<close>

definition integrity :: "db \<Rightarrow> bool" where
  "integrity conn \<longleftrightarrow>
     distinct (map p_id (proposals conn)) \<and>
     distinct (map v_id (votes conn)) \<and>
     distinct (map (\<lambda>v. (v_proposal_id v, v_voter_name v)) (votes conn)) \<and>
     (\<forall>v\<in>set (votes conn).
        v_vote v \<in> {''yes'', ''no'', ''abstain''} \<and>
        v_proposal_id v \<in> set (map p_id (proposals conn)))"

text \<open>
  A vote of the voter on the proposal is stored; the votes of a voter on a proposal; the
  votes of a proposal.
\<close>

definition vote_exists :: "db \<Rightarrow> int \<Rightarrow> string \<Rightarrow> bool" where
  "vote_exists conn proposal_id name \<longleftrightarrow>
     (proposal_id, name) \<in> set (map (\<lambda>v. (v_proposal_id v, v_voter_name v)) (votes conn))"

definition votes_of_voter :: "db \<Rightarrow> int \<Rightarrow> string \<Rightarrow> vote_row list" where
  "votes_of_voter conn proposal_id name =
     filter (\<lambda>v. v_proposal_id v = proposal_id \<and> v_voter_name v = name) (votes conn)"

definition votes_of :: "db \<Rightarrow> int \<Rightarrow> vote_row list" where
  "votes_of conn proposal_id = filter (\<lambda>v. v_proposal_id v = proposal_id) (votes conn)"

section \<open>Facts about the SQL statements and the helpers\<close>

lemma sqlite_int_numeral [simp]:
  "sqlite_int 1" "sqlite_int 2" "sqlite_int 3" "sqlite_int 4" "sqlite_int 9"
  "\<not> sqlite_int 9223372036854775808"
  by (simp_all add: sqlite_int_def)

lemma select_proposal_Inr:
  "select_proposal conn pid = Inr x \<longleftrightarrow> sqlite_int pid \<and> proposal_with_id conn pid = x"
  by (auto simp: select_proposal_def)

lemma select_proposal_Inl:
  "select_proposal conn pid = Inl e \<longleftrightarrow> \<not> sqlite_int pid \<and> e = OverflowError"
  by (auto simp: select_proposal_def)

lemma select_proposal_bound: "sqlite_int pid \<Longrightarrow> select_proposal conn pid = Inr (proposal_with_id conn pid)"
  by (simp add: select_proposal_def)

lemma select_vote_Inr:
  "select_vote conn vid = Inr x \<longleftrightarrow> sqlite_int vid \<and> vote_with_id conn vid = x"
  by (auto simp: select_vote_def)

lemma select_vote_Inl:
  "select_vote conn vid = Inl e \<longleftrightarrow> \<not> sqlite_int vid \<and> e = OverflowError"
  by (auto simp: select_vote_def)

lemma select_vote_bound: "sqlite_int vid \<Longrightarrow> select_vote conn vid = Inr (vote_with_id conn vid)"
  by (simp add: select_vote_def)

lemma find_map_status:
  "find (\<lambda>r. p_id r = q) (map (\<lambda>r. if p_id r = pid then r\<lparr>p_status := st\<rparr> else r) xs) =
     (if q = pid then map_option (\<lambda>r. r\<lparr>p_status := st\<rparr>) (find (\<lambda>r. p_id r = q) xs)
      else find (\<lambda>r. p_id r = q) xs)"
  by (induction xs) auto

lemma proposal_with_id_update_status:
  "proposal_with_id (update_status conn st pid) q =
     (if q = pid then map_option (\<lambda>r. r\<lparr>p_status := st\<rparr>) (proposal_with_id conn q)
      else proposal_with_id conn q)"
  unfolding proposal_with_id_def update_status_def by (simp add: find_map_status)

lemma votes_update_status [simp]: "votes (update_status conn st pid) = votes conn"
  by (simp add: update_status_def)

lemma ids_update_status [simp]:
  "map p_id (proposals (update_status conn st pid)) = map p_id (proposals conn)"
  by (simp add: update_status_def comp_def)

lemma get_proposal_or_404_overflow:
  "\<not> sqlite_int pid \<Longrightarrow> get_proposal_or_404 conn pid now = (conn, Inl OverflowError)"
  by (simp add: get_proposal_or_404_def select_proposal_def)

lemma get_proposal_or_404_missing:
  "proposal_with_id conn pid = None \<Longrightarrow> sqlite_int pid \<Longrightarrow>
     get_proposal_or_404 conn pid now = (conn, Inl ProposalNotFound)"
  by (simp add: get_proposal_or_404_def select_proposal_def)

lemma get_proposal_or_404_expires:
  "proposal_with_id conn pid = Some row \<Longrightarrow> p_status row = active \<Longrightarrow> now > p_deadline row \<Longrightarrow>
   sqlite_int pid \<Longrightarrow>
     get_proposal_or_404 conn pid now =
       (update_status conn expired pid, Inr (row\<lparr>p_status := expired\<rparr>))"
  by (simp add: get_proposal_or_404_def select_proposal_def proposal_with_id_update_status)

lemma get_proposal_or_404_keeps:
  "proposal_with_id conn pid = Some row \<Longrightarrow> \<not> (p_status row = active \<and> now > p_deadline row) \<Longrightarrow>
   sqlite_int pid \<Longrightarrow>
     get_proposal_or_404 conn pid now = (conn, Inr row)"
  by (auto simp add: get_proposal_or_404_def select_proposal_def)

lemma counts_loop_lookup:
  "counts_loop m (map (\<lambda>x. (x, f x)) xs) k = (if k \<in> set xs then Some (f k) else m k)"
  by (induction xs arbitrary: m) auto

lemma count_list_map_filter:
  "count_list (map v_vote (filter P xs)) c = length (filter (\<lambda>v. P v \<and> v_vote v = c) xs)"
  by (induction xs) auto

lemma counts_loop_entry:
  "m k = Some 0 \<Longrightarrow>
     the (counts_loop m (map (\<lambda>x. (x, count_list vs x)) (remdups vs)) k) = count_list vs k"
  by (simp add: counts_loop_lookup)

lemma tally_entry:
  assumes "m k = Some 0"
  shows "the (counts_loop m (select_vote_counts conn pid) k) = count_votes conn pid k"
proof -
  let ?vs = "map v_vote (filter (\<lambda>v. v_proposal_id v = pid) (votes conn))"
  have "select_vote_counts conn pid = map (\<lambda>x. (x, count_list ?vs x)) (remdups ?vs)"
    by (simp add: select_vote_counts_def Let_def)
  then have "the (counts_loop m (select_vote_counts conn pid) k) = count_list ?vs k"
    using assms by (simp only: counts_loop_entry)
  also have "\<dots> = count_votes conn pid k"
    unfolding count_votes_def by (rule count_list_map_filter)
  finally show ?thesis .
qed

lemma tally_votes_counts:
  "tally_votes conn pid =
     (count_votes conn pid ''yes'', count_votes conn pid ''no'', count_votes conn pid ''abstain'')"
  unfolding tally_votes_def Let_def
  by (simp add: tally_entry)


lemma example_db_reachable:
  "example_db =
     run init_db
       [PostProposal \<lparr>body_title = ''Park'', body_description = ''Plant trees'',
                       body_days_open = Missing\<rparr> 0 1,
        PostVote 1 \<lparr>voter_name = ''Alice'', vote = ''yes''\<rparr> 4 5,
        PostVote 1 \<lparr>voter_name = ''Bob'', vote = ''no''\<rparr> 5 6,
        PostVote 1 \<lparr>voter_name = ''Carol'', vote = ''abstain''\<rparr> 6 7,
        DeleteVote 2 8,
        PostProposal \<lparr>body_title = ''Pool'', body_description = ''Fix the pool'',
                       body_days_open = Given 0\<rparr> 10 11]"
  by (simp add: example_db_def run_def init_db_def post_proposal_def post_vote_def
      validate_ProposalCreate_def
      validate_VoteCreate_def vote_regex_match_def create_proposal_def submit_vote_def
      revoke_vote_def timedelta_days_def datetime_add_def DATETIME_MAX_def
      insert_proposal_def insert_vote_def delete_vote_def next_rowid_def
      get_proposal_or_404_def select_proposal_def select_vote_def sqlite_int_def
      proposal_with_id_def vote_with_id_def select_vote_of_def
      update_status_def Let_def)

lemma proposal_with_id_example:
  "proposal_with_id example_db 1 =
     Some \<lparr>p_id = 1, p_title = ''Park'', p_description = ''Plant trees'', p_created_at = 0,
           p_deadline = 172800000000, p_status = active\<rparr>"
  by (simp add: example_db_def proposal_with_id_def)

lemma seqs_update_status [simp]:
  "votes_seq (update_status conn st pid) = votes_seq conn"
  "proposals_seq (update_status conn st pid) = proposals_seq conn"
  by (simp_all add: update_status_def)

lemma status_of_update_status:
  "status_of (update_status conn st pid) q =
     (if q = pid then map_option (\<lambda>_. st) (status_of conn q) else status_of conn q)"
  by (simp add: status_of_def proposal_with_id_update_status option.map_comp comp_def)

lemma status_of_None_iff: "status_of conn pid = None \<longleftrightarrow> proposal_with_id conn pid = None"
  by (simp add: status_of_def)


lemma proposal_with_id_None_iff:
  "proposal_with_id conn pid = None \<longleftrightarrow> pid \<notin> set (map p_id (proposals conn))"
  by (auto simp: proposal_with_id_def find_None_iff)

lemma get_proposal_or_404_cases:
  obtains (overflow) "get_proposal_or_404 conn q now = (conn, Inl OverflowError)"
      "\<not> sqlite_int q"
  | (missing) "sqlite_int q" "proposal_with_id conn q = None"
      "get_proposal_or_404 conn q now = (conn, Inl ProposalNotFound)"
  | (expires) row where "sqlite_int q" "proposal_with_id conn q = Some row"
      "p_status row = active" "now > p_deadline row"
      "get_proposal_or_404 conn q now =
         (update_status conn expired q, Inr (row\<lparr>p_status := expired\<rparr>))"
  | (keeps) row where "sqlite_int q" "proposal_with_id conn q = Some row"
      "\<not> (p_status row = active \<and> now > p_deadline row)"
      "get_proposal_or_404 conn q now = (conn, Inr row)"
proof (cases "sqlite_int q")
  case False
  then show ?thesis using overflow get_proposal_or_404_overflow by blast
next
  case bound: True
  show ?thesis
  proof (cases "proposal_with_id conn q")
    case None
    then show ?thesis using bound missing get_proposal_or_404_missing by blast
  next
    case (Some row)
    show ?thesis
    proof (cases "p_status row = active \<and> now > p_deadline row")
      case True
      then show ?thesis using bound Some expires get_proposal_or_404_expires by blast
    next
      case False
      then show ?thesis using bound Some keeps get_proposal_or_404_keeps by blast
    qed
  qed
qed

lemma lazy_expiry_refl: "lazy_expiry a a"
  by (simp add: lazy_expiry_def)

lemma lazy_expiry_trans: "lazy_expiry a b \<Longrightarrow> lazy_expiry b c \<Longrightarrow> lazy_expiry a c"
  unfolding lazy_expiry_def by (intro conjI allI impI; simp?) metis

lemma lazy_expiry_update_status:
  assumes "status_of conn q = Some active"
  shows "lazy_expiry conn (update_status conn expired q)"
  using assms by (auto simp: lazy_expiry_def status_of_update_status)

lemma lazy_expiry_get_proposal_or_404:
  "lazy_expiry conn (fst (get_proposal_or_404 conn q now))"
proof (cases rule: get_proposal_or_404_cases [of conn q now])
  case overflow
  then show ?thesis by (simp add: lazy_expiry_refl)
next
  case missing
  then show ?thesis by (simp add: lazy_expiry_refl)
next
  case (expires row)
  then have "status_of conn q = Some active" by (simp add: status_of_def)
  then show ?thesis using expires by (simp add: lazy_expiry_update_status)
next
  case (keeps row)
  then show ?thesis by (simp add: lazy_expiry_refl)
qed

lemma lazy_expiry_get_proposals_loop:
  "lazy_expiry conn (fst (get_proposals_loop conn ids clock i acc))"
proof (induction ids arbitrary: conn i acc)
  case Nil
  show ?case by (simp add: lazy_expiry_refl)
next
  case (Cons pid ids)
  obtain conn' r where gp: "get_proposal_or_404 conn pid (clock i) = (conn', r)"
    by (cases "get_proposal_or_404 conn pid (clock i)")
  have first: "lazy_expiry conn conn'"
    using lazy_expiry_get_proposal_or_404 [of conn pid "clock i"] gp by simp
  show ?case
  proof (cases r)
    case (Inl e)
    then show ?thesis using gp first by simp
  next
    case (Inr row)
    then have "fst (get_proposals_loop conn (pid # ids) clock i acc) =
        fst (get_proposals_loop conn' ids clock (Suc i)
               (acc @ [proposal_out row (tally_votes conn' pid)]))"
      using gp by simp
    then show ?thesis
      using first Cons.IH [of conn'] lazy_expiry_trans by metis
  qed
qed

lemma lazy_expiry_get_proposals: "lazy_expiry conn (fst (get_proposals conn clock))"
  by (simp add: get_proposals_def lazy_expiry_get_proposals_loop)

lemma lazy_expiry_get_proposal: "lazy_expiry conn (fst (get_proposal conn pid now))"
proof -
  have "fst (get_proposal conn pid now) = fst (get_proposal_or_404 conn pid now)"
    by (simp add: get_proposal_def split: prod.splits sum.splits)
  then show ?thesis by (simp add: lazy_expiry_get_proposal_or_404)
qed

lemma tally_votes_cong: "votes a = votes b \<Longrightarrow> tally_votes a pid = tally_votes b pid"
  by (simp add: tally_votes_counts count_votes_def)

lemma close_proposal_overflow:
  "\<not> sqlite_int pid \<Longrightarrow>
     close_proposal conn pid (Some ADMIN_TOKEN) now = (conn, Inl OverflowError)"
  by (simp add: close_proposal_def select_proposal_def)

lemma close_proposal_authorized:
  assumes "proposal_with_id conn pid = Some row" "sqlite_int pid"
  shows "close_proposal conn pid (Some ADMIN_TOKEN) now =
           (update_status conn closed pid,
            Inr (proposal_out (row\<lparr>p_status := closed\<rparr>) (tally_votes conn pid)))"
proof -
  let ?conn1 = "update_status conn closed pid"
  have "proposal_with_id ?conn1 pid = Some (row\<lparr>p_status := closed\<rparr>)"
    using assms by (simp add: proposal_with_id_update_status)
  then have "get_proposal_or_404 ?conn1 pid now = (?conn1, Inr (row\<lparr>p_status := closed\<rparr>))"
    using assms(2) by (simp add: get_proposal_or_404_keeps)
  moreover have "tally_votes ?conn1 pid = tally_votes conn pid"
    by (rule tally_votes_cong) simp
  ultimately show ?thesis
    using assms unfolding close_proposal_def Let_def by (simp add: select_proposal_def)
qed

lemma close_proposal_missing:
  "proposal_with_id conn pid = None \<Longrightarrow> sqlite_int pid \<Longrightarrow>
     close_proposal conn pid (Some ADMIN_TOKEN) now = (conn, Inl ProposalNotFound)"
  by (simp add: close_proposal_def select_proposal_def)

lemma close_proposal_effect:
  obtains (forbidden) "close_proposal conn pid tok now = (conn, Inl AdminTokenRequired)"
      "tok \<noteq> Some ADMIN_TOKEN"
  | (overflow) "tok = Some ADMIN_TOKEN" "\<not> sqlite_int pid"
      "close_proposal conn pid tok now = (conn, Inl OverflowError)"
  | (missing) "tok = Some ADMIN_TOKEN" "sqlite_int pid" "proposal_with_id conn pid = None"
      "close_proposal conn pid tok now = (conn, Inl ProposalNotFound)"
  | (closes) row where "tok = Some ADMIN_TOKEN" "sqlite_int pid"
      "proposal_with_id conn pid = Some row"
      "close_proposal conn pid tok now =
         (update_status conn closed pid,
          Inr (proposal_out (row\<lparr>p_status := closed\<rparr>) (tally_votes conn pid)))"
proof (cases "tok = Some ADMIN_TOKEN")
  case False
  then show ?thesis using forbidden by (simp add: close_proposal_def)
next
  case tok: True
  show ?thesis
  proof (cases "sqlite_int pid")
    case False
    then show ?thesis using tok overflow close_proposal_overflow by blast
  next
    case bound: True
    show ?thesis
    proof (cases "proposal_with_id conn pid")
      case None
      then show ?thesis using tok bound missing close_proposal_missing by blast
    next
      case (Some row)
      then show ?thesis using tok bound closes close_proposal_authorized by blast
    qed
  qed
qed

lemma fold_max_ge: "x \<in> set ids \<Longrightarrow> x \<le> fold max ids (seq::int)"
proof (induction ids arbitrary: seq)
  case Nil
  then show ?case by simp
next
  case (Cons a ids)
  have mono: "s \<le> fold max ids (s::int)" for s
    by (induction ids arbitrary: s) (auto intro: order_trans [OF max.cobounded2])
  show ?case
  proof (cases "x = a")
    case True
    then show ?thesis using mono [of "max a seq"] by simp
  next
    case False
    then show ?thesis using Cons by simp
  qed
qed

lemma next_rowid_fresh: "next_rowid seq ids \<notin> set ids"
  using fold_max_ge [of "next_rowid seq ids" ids seq] by (auto simp: next_rowid_def)

lemma find_append_fresh:
  "\<forall>x\<in>set xs. \<not> P x \<Longrightarrow> P v \<Longrightarrow> find P (xs @ [v]) = Some v"
  by (induction xs) auto

lemma find_append_old:
  "find P xs = Some x \<Longrightarrow> find P (xs @ ys) = Some x"
  by (induction xs) (auto split: if_splits)

lemma select_vote_of_None_iff:
  "select_vote_of conn pid name = None \<longleftrightarrow>
     (pid, name) \<notin> set (map (\<lambda>v. (v_proposal_id v, v_voter_name v)) (votes conn))"
  by (auto simp: select_vote_of_def find_None_iff)

lemma submit_vote_overflow:
  "\<not> sqlite_int pid \<Longrightarrow>
     submit_vote conn pid payload now voted_at = (conn, Inl OverflowError)"
  by (simp add: submit_vote_def get_proposal_or_404_overflow)

lemma submit_vote_missing:
  "proposal_with_id conn pid = None \<Longrightarrow> sqlite_int pid \<Longrightarrow>
     submit_vote conn pid payload now voted_at = (conn, Inl ProposalNotFound)"
  by (simp add: submit_vote_def get_proposal_or_404_missing)

lemma submit_vote_expires:
  "proposal_with_id conn pid = Some row \<Longrightarrow> p_status row = active \<Longrightarrow> now > p_deadline row \<Longrightarrow>
   sqlite_int pid \<Longrightarrow>
     submit_vote conn pid payload now voted_at =
       (update_status conn expired pid, Inl VotingNotAllowed)"
  by (simp add: submit_vote_def get_proposal_or_404_expires)

lemma submit_vote_not_active:
  "proposal_with_id conn pid = Some row \<Longrightarrow> p_status row \<noteq> active \<Longrightarrow> sqlite_int pid \<Longrightarrow>
     submit_vote conn pid payload now voted_at = (conn, Inl VotingNotAllowed)"
  by (simp add: submit_vote_def get_proposal_or_404_keeps)

lemma submit_vote_duplicate:
  "proposal_with_id conn pid = Some row \<Longrightarrow> p_status row = active \<Longrightarrow> \<not> now > p_deadline row \<Longrightarrow>
   select_vote_of conn pid (voter_name payload) = Some x \<Longrightarrow> sqlite_int pid \<Longrightarrow>
     submit_vote conn pid payload now voted_at = (conn, Inl AlreadyVoted)"
  by (simp add: submit_vote_def get_proposal_or_404_keeps)

lemma submit_vote_full:
  "proposal_with_id conn pid = Some row \<Longrightarrow> p_status row = active \<Longrightarrow> \<not> now > p_deadline row \<Longrightarrow>
   select_vote_of conn pid (voter_name payload) = None \<Longrightarrow>
   \<not> sqlite_int (next_rowid (votes_seq conn) (map v_id (votes conn))) \<Longrightarrow> sqlite_int pid \<Longrightarrow>
     submit_vote conn pid payload now voted_at = (conn, Inl OperationalError)"
  by (simp add: submit_vote_def get_proposal_or_404_keeps insert_vote_def Let_def)

lemma submit_vote_bad_choice:
  "proposal_with_id conn pid = Some row \<Longrightarrow> p_status row = active \<Longrightarrow> \<not> now > p_deadline row \<Longrightarrow>
   select_vote_of conn pid (voter_name payload) = None \<Longrightarrow>
   vote payload \<notin> {''yes'', ''no'', ''abstain''} \<Longrightarrow>
   sqlite_int (next_rowid (votes_seq conn) (map v_id (votes conn))) \<Longrightarrow> sqlite_int pid \<Longrightarrow>
     submit_vote conn pid payload now voted_at = (conn, Inl IntegrityError)"
  by (simp add: submit_vote_def get_proposal_or_404_keeps insert_vote_def Let_def)

lemma submit_vote_inserts:
  assumes "proposal_with_id conn pid = Some row" "p_status row = active"
    "\<not> now > p_deadline row"
    "select_vote_of conn pid (voter_name payload) = None"
    "vote payload \<in> {''yes'', ''no'', ''abstain''}"
    and v_def: "v = \<lparr>v_id = next_rowid (votes_seq conn) (map v_id (votes conn)),
                 v_proposal_id = pid, v_voter_name = voter_name payload,
                 v_vote = vote payload, v_voted_at = voted_at\<rparr>"
    and bound: "sqlite_int pid" "sqlite_int (v_id v)"
  shows "submit_vote conn pid payload now voted_at =
           (conn\<lparr>votes := votes conn @ [v], votes_seq := v_id v\<rparr>, Inr v)"
proof -
  let ?conn2 = "conn\<lparr>votes := votes conn @ [v], votes_seq := v_id v\<rparr>"
  have room: "sqlite_int (next_rowid (votes_seq conn) (map v_id (votes conn)))"
    using bound(2) by (simp add: v_def)
  have ins: "insert_vote conn pid (voter_name payload) (vote payload) voted_at =
               Inr (?conn2, v_id v)"
    using assms(4,5) room select_vote_of_None_iff [of conn pid "voter_name payload"]
    by (simp add: insert_vote_def Let_def v_def)
  have "\<forall>x\<in>set (votes conn). \<not> v_id x = v_id v"
    using next_rowid_fresh [of "votes_seq conn" "map v_id (votes conn)"]
    by (auto simp: v_def image_iff)
  then have "vote_with_id ?conn2 (v_id v) = Some v"
    by (simp add: vote_with_id_def find_append_fresh)
  then have "select_vote ?conn2 (v_id v) = Inr (Some v)"
    using bound(2) by (simp add: select_vote_def)
  then show ?thesis
    using assms(1-4) bound(1) ins by (simp add: submit_vote_def get_proposal_or_404_keeps)
qed

lemma revoke_vote_overflow:
  "\<not> sqlite_int vid \<Longrightarrow> revoke_vote conn vid now = (conn, Inl OverflowError)"
  by (simp add: revoke_vote_def select_vote_def)

lemma revoke_vote_missing:
  "vote_with_id conn vid = None \<Longrightarrow> sqlite_int vid \<Longrightarrow>
     revoke_vote conn vid now = (conn, Inl VoteNotFound)"
  by (simp add: revoke_vote_def select_vote_def)

lemma revoke_vote_unbound:
  "vote_with_id conn vid = Some v \<Longrightarrow> \<not> sqlite_int (v_proposal_id v) \<Longrightarrow> sqlite_int vid \<Longrightarrow>
     revoke_vote conn vid now = (conn, Inl OverflowError)"
  by (simp add: revoke_vote_def select_vote_def get_proposal_or_404_overflow)

lemma revoke_vote_orphan:
  "vote_with_id conn vid = Some v \<Longrightarrow> proposal_with_id conn (v_proposal_id v) = None \<Longrightarrow>
   sqlite_int vid \<Longrightarrow> sqlite_int (v_proposal_id v) \<Longrightarrow>
     revoke_vote conn vid now = (conn, Inl ProposalNotFound)"
  by (simp add: revoke_vote_def select_vote_def get_proposal_or_404_missing)

lemma revoke_vote_expires:
  "vote_with_id conn vid = Some v \<Longrightarrow> proposal_with_id conn (v_proposal_id v) = Some row \<Longrightarrow>
   p_status row = active \<Longrightarrow> now > p_deadline row \<Longrightarrow>
   sqlite_int vid \<Longrightarrow> sqlite_int (v_proposal_id v) \<Longrightarrow>
     revoke_vote conn vid now =
       (update_status conn expired (v_proposal_id v), Inl RevokeNotAllowed)"
  by (simp add: revoke_vote_def select_vote_def get_proposal_or_404_expires)

lemma revoke_vote_not_active:
  "vote_with_id conn vid = Some v \<Longrightarrow> proposal_with_id conn (v_proposal_id v) = Some row \<Longrightarrow>
   p_status row \<noteq> active \<Longrightarrow> sqlite_int vid \<Longrightarrow> sqlite_int (v_proposal_id v) \<Longrightarrow>
     revoke_vote conn vid now = (conn, Inl RevokeNotAllowed)"
  by (simp add: revoke_vote_def select_vote_def get_proposal_or_404_keeps)

lemma revoke_vote_deletes:
  "vote_with_id conn vid = Some v \<Longrightarrow> proposal_with_id conn (v_proposal_id v) = Some row \<Longrightarrow>
   p_status row = active \<Longrightarrow> \<not> now > p_deadline row \<Longrightarrow>
   sqlite_int vid \<Longrightarrow> sqlite_int (v_proposal_id v) \<Longrightarrow>
     revoke_vote conn vid now = (delete_vote conn vid, Inr ())"
  by (simp add: revoke_vote_def select_vote_def get_proposal_or_404_keeps)

lemma submit_vote_effect:
  obtains (unchanged) e where
      "submit_vote conn pid payload now voted_at = (conn, Inl e)"
      "e = ProposalNotFound \<or> e = VotingNotAllowed \<or> e = AlreadyVoted \<or> e = IntegrityError \<or>
       e = OverflowError \<or> e = OperationalError"
  | (expired) row where "proposal_with_id conn pid = Some row" "p_status row = active"
      "now > p_deadline row"
      "submit_vote conn pid payload now voted_at =
         (update_status conn expired pid, Inl VotingNotAllowed)"
      "sqlite_int pid"
  | (inserted) row v where "proposal_with_id conn pid = Some row" "p_status row = active"
      "\<not> now > p_deadline row"
      "select_vote_of conn pid (voter_name payload) = None"
      "vote payload \<in> {''yes'', ''no'', ''abstain''}"
      "v = \<lparr>v_id = next_rowid (votes_seq conn) (map v_id (votes conn)),
            v_proposal_id = pid, v_voter_name = voter_name payload,
            v_vote = vote payload, v_voted_at = voted_at\<rparr>"
      "submit_vote conn pid payload now voted_at =
         (conn\<lparr>votes := votes conn @ [v], votes_seq := v_id v\<rparr>, Inr v)"
      "sqlite_int pid" "sqlite_int (v_id v)"
proof (cases "sqlite_int pid")
  case False
  then show ?thesis using unchanged submit_vote_overflow by blast
next
  case bound: True
  show ?thesis
  proof (cases "proposal_with_id conn pid")
    case None
    then show ?thesis using bound unchanged submit_vote_missing by blast
  next
    case (Some row)
    show ?thesis
    proof (cases "p_status row = active")
      case False
      then show ?thesis using bound Some unchanged submit_vote_not_active by blast
    next
      case act: True
      show ?thesis
      proof (cases "now > p_deadline row")
        case True
        then show ?thesis using bound Some act expired submit_vote_expires by blast
      next
        case late: False
        show ?thesis
        proof (cases "select_vote_of conn pid (voter_name payload)")
          case (Some x)
          then show ?thesis
            using \<open>proposal_with_id conn pid = Some row\<close> bound act late unchanged
              submit_vote_duplicate by blast
        next
          case None
          let ?vid = "next_rowid (votes_seq conn) (map v_id (votes conn))"
          show ?thesis
          proof (cases "sqlite_int ?vid")
            case False
            then show ?thesis
              using Some act late None bound unchanged submit_vote_full by blast
          next
            case room: True
            show ?thesis
            proof (cases "vote payload \<in> {''yes'', ''no'', ''abstain''}")
              case True
              let ?v = "\<lparr>v_id = ?vid, v_proposal_id = pid, v_voter_name = voter_name payload,
                         v_vote = vote payload, v_voted_at = voted_at\<rparr>"
              have r: "sqlite_int (v_id ?v)" using room by simp
              show ?thesis
                by (rule inserted [OF Some act late None True refl _ bound r])
                   (rule submit_vote_inserts [OF Some act late None True refl bound r])
            next
              case False
              then show ?thesis
                using Some act late None room bound unchanged submit_vote_bad_choice by blast
            qed
          qed
        qed
      qed
    qed
  qed
qed

lemma revoke_vote_effect:
  obtains (unchanged) e where "revoke_vote conn vid now = (conn, Inl e)"
      "e = VoteNotFound \<or> e = ProposalNotFound \<or> e = RevokeNotAllowed \<or> e = OverflowError"
  | (expired) v row where "vote_with_id conn vid = Some v"
      "proposal_with_id conn (v_proposal_id v) = Some row" "p_status row = active"
      "now > p_deadline row"
      "revoke_vote conn vid now =
         (update_status conn expired (v_proposal_id v), Inl RevokeNotAllowed)"
      "sqlite_int vid" "sqlite_int (v_proposal_id v)"
  | (deleted) v row where "vote_with_id conn vid = Some v"
      "proposal_with_id conn (v_proposal_id v) = Some row" "p_status row = active"
      "\<not> now > p_deadline row"
      "revoke_vote conn vid now = (delete_vote conn vid, Inr ())"
      "sqlite_int vid" "sqlite_int (v_proposal_id v)"
proof (cases "sqlite_int vid")
  case False
  then show ?thesis using unchanged revoke_vote_overflow by blast
next
  case bound: True
  show ?thesis
  proof (cases "vote_with_id conn vid")
    case None
    then show ?thesis using bound unchanged revoke_vote_missing by blast
  next
    case sv: (Some v)
    show ?thesis
    proof (cases "sqlite_int (v_proposal_id v)")
      case False
      then show ?thesis using bound sv unchanged revoke_vote_unbound by blast
    next
      case pb: True
      show ?thesis
      proof (cases "proposal_with_id conn (v_proposal_id v)")
        case None
        then show ?thesis using bound pb sv unchanged revoke_vote_orphan by blast
      next
        case (Some row)
        show ?thesis
        proof (cases "p_status row = active")
          case False
          then show ?thesis using bound pb sv Some unchanged revoke_vote_not_active by blast
        next
          case act: True
          show ?thesis
          proof (cases "now > p_deadline row")
            case True
            then show ?thesis using bound pb sv Some act expired revoke_vote_expires by blast
          next
            case False
            then show ?thesis using bound pb sv Some act deleted revoke_vote_deletes by blast
          qed
        qed
      qed
    qed
  qed
qed

lemma create_proposal_created:
  assumes "days_open payload = Some n" "\<bar>n\<bar> \<le> 999999999"
    "0 \<le> created_at + n * 86400000000" "created_at + n * 86400000000 \<le> DATETIME_MAX"
    and row: "row = \<lparr>p_id = next_rowid (proposals_seq conn) (map p_id (proposals conn)),
                      p_title = title payload, p_description = description payload,
                      p_created_at = created_at,
                      p_deadline = created_at + n * 86400000000, p_status = active\<rparr>"
    and conn1: "conn1 = conn\<lparr>proposals := proposals conn @ [row], proposals_seq := p_id row\<rparr>"
    and room: "sqlite_int (p_id row)"
  shows "create_proposal conn payload created_at now =
           (if now > p_deadline row
            then (update_status conn1 expired (p_id row),
                  Inr (proposal_out (row\<lparr>p_status := expired\<rparr>) (tally_votes conn (p_id row))))
            else (conn1, Inr (proposal_out row (tally_votes conn (p_id row)))))"
proof -
  have "sqlite_int (next_rowid (proposals_seq conn) (map p_id (proposals conn)))"
    using room by (simp add: row)
  then have ins: "insert_proposal conn (title payload) (description payload) created_at
               (created_at + n * 86400000000) active = Inr (conn1, p_id row)"
    by (simp add: insert_proposal_def Let_def row conn1)
  have "\<forall>x\<in>set (proposals conn). \<not> p_id x = p_id row"
    using next_rowid_fresh [of "proposals_seq conn" "map p_id (proposals conn)"]
    by (auto simp: row image_iff)
  then have sel: "proposal_with_id conn1 (p_id row) = Some row"
    by (simp add: proposal_with_id_def conn1 find_append_fresh)
  have st: "p_status row = active" by (simp add: row)
  have t1: "tally_votes conn1 (p_id row) = tally_votes conn (p_id row)"
    by (rule tally_votes_cong) (simp add: conn1)
  have t2: "tally_votes (update_status conn1 expired (p_id row)) (p_id row) =
              tally_votes conn (p_id row)"
    by (rule tally_votes_cong) (simp add: conn1)
  have pre: "create_proposal conn payload created_at now =
      (case get_proposal_or_404 conn1 (p_id row) now of
         (conn2, Inl e) \<Rightarrow> (conn2, Inl e)
       | (conn2, Inr r) \<Rightarrow> (conn2, Inr (proposal_out r (tally_votes conn2 (p_id row)))))"
    using assms(1-4) ins by (simp add: create_proposal_def timedelta_days_def datetime_add_def)
  show ?thesis
  proof (cases "now > p_deadline row")
    case True
    then show ?thesis
      using pre get_proposal_or_404_expires [OF sel st True room] t2 by simp
  next
    case False
    then have "get_proposal_or_404 conn1 (p_id row) now = (conn1, Inr row)"
      using sel room by (simp add: get_proposal_or_404_keeps)
    then show ?thesis using pre False t1 by simp
  qed
qed

lemma create_proposal_full:
  assumes "days_open payload = Some n" "\<bar>n\<bar> \<le> 999999999"
    "0 \<le> created_at + n * 86400000000" "created_at + n * 86400000000 \<le> DATETIME_MAX"
    "\<not> sqlite_int (next_rowid (proposals_seq conn) (map p_id (proposals conn)))"
  shows "create_proposal conn payload created_at now = (conn, Inl OperationalError)"
  using assms
  by (simp add: create_proposal_def timedelta_days_def datetime_add_def insert_proposal_def
      Let_def)

lemma create_proposal_failed:
  assumes "\<not> (\<exists>n. days_open payload = Some n \<and> \<bar>n\<bar> \<le> 999999999 \<and>
               0 \<le> created_at + n * 86400000000 \<and>
               created_at + n * 86400000000 \<le> DATETIME_MAX)"
  shows "\<exists>e. create_proposal conn payload created_at now = (conn, Inl e) \<and>
             (e = TypeError \<or> e = OverflowError)"
  using assms
  by (auto simp: create_proposal_def timedelta_days_def datetime_add_def
      split: option.splits)

lemma create_proposal_effect:
  obtains (failed) e where "create_proposal conn payload created_at now = (conn, Inl e)"
      "e = TypeError \<or> e = OverflowError \<or> e = OperationalError"
  | (created) n row conn1 where "days_open payload = Some n" "\<bar>n\<bar> \<le> 999999999"
      "0 \<le> created_at + n * 86400000000" "created_at + n * 86400000000 \<le> DATETIME_MAX"
      "row = \<lparr>p_id = next_rowid (proposals_seq conn) (map p_id (proposals conn)),
              p_title = title payload, p_description = description payload,
              p_created_at = created_at,
              p_deadline = created_at + n * 86400000000, p_status = active\<rparr>"
      "conn1 = conn\<lparr>proposals := proposals conn @ [row], proposals_seq := p_id row\<rparr>"
      "sqlite_int (p_id row)"
      "create_proposal conn payload created_at now =
         (if now > p_deadline row
          then (update_status conn1 expired (p_id row),
                Inr (proposal_out (row\<lparr>p_status := expired\<rparr>) (tally_votes conn (p_id row))))
          else (conn1, Inr (proposal_out row (tally_votes conn (p_id row)))))"
proof (cases "\<exists>n. days_open payload = Some n \<and> \<bar>n\<bar> \<le> 999999999 \<and>
               0 \<le> created_at + n * 86400000000 \<and>
               created_at + n * 86400000000 \<le> DATETIME_MAX")
  case False
  then show ?thesis using create_proposal_failed [OF False, of conn now] failed by blast
next
  case True
  then obtain n where n: "days_open payload = Some n" "\<bar>n\<bar> \<le> 999999999"
    "0 \<le> created_at + n * 86400000000" "created_at + n * 86400000000 \<le> DATETIME_MAX"
    by blast
  let ?pid = "next_rowid (proposals_seq conn) (map p_id (proposals conn))"
  let ?row = "\<lparr>p_id = ?pid, p_title = title payload, p_description = description payload,
              p_created_at = created_at,
              p_deadline = created_at + n * 86400000000, p_status = active\<rparr>"
  show ?thesis
  proof (cases "sqlite_int ?pid")
    case False
    then show ?thesis using create_proposal_full [OF n False, of now] failed by blast
  next
    case room: True
    then have r: "sqlite_int (p_id ?row)" by simp
    show ?thesis
      by (rule created [OF n refl refl r]) (rule create_proposal_created [OF n refl refl r])
  qed
qed

lemma status_of_example:
  "status_of example_db 1 = Some active" "status_of example_db 2 = Some expired"
  by (simp_all add: status_of_def proposal_with_id_def example_db_def)

lemma tally_votes_example:
  "tally_votes example_db 1 = (1, 0, 1)" "tally_votes example_db 2 = (0, 0, 0)"
  by (simp_all add: tally_votes_counts count_votes_def example_db_def)

lemma proposal_with_id_example2:
  "proposal_with_id example_db 2 =
     Some \<lparr>p_id = 2, p_title = ''Pool'', p_description = ''Fix the pool'', p_created_at = 10,
           p_deadline = 10, p_status = expired\<rparr>"
  by (simp add: example_db_def proposal_with_id_def)

lemma effective_status_example:
  "effective_status example_db 2 20 = Some expired"
  "effective_status example_db 1 172800000001 = Some expired"
  "effective_status example_db 1 20 = Some active"
  by (simp_all add: effective_status_def get_proposal_or_404_def select_proposal_def
      proposal_with_id_example proposal_with_id_example2 proposal_with_id_update_status)

lemma proposal_with_id_example9: "proposal_with_id example_db 9 = None"
  by (simp add: example_db_def proposal_with_id_def)

lemma status_of_votes_update [simp]:
  "status_of (conn\<lparr>votes := vs, votes_seq := k\<rparr>) pid = status_of conn pid"
  "status_of (delete_vote conn vid) pid = status_of conn pid"
  by (simp_all add: status_of_def proposal_with_id_def delete_vote_def)

lemma lazy_expiry_status:
  "lazy_expiry a b \<Longrightarrow> status_of a pid = Some st \<Longrightarrow>
     status_of b pid = Some st \<or> (st = active \<and> status_of b pid = Some expired)"
  by (simp add: lazy_expiry_def)

lemma status_of_append:
  "status_of conn pid = Some st \<Longrightarrow>
     status_of (conn\<lparr>proposals := proposals conn @ rows, proposals_seq := k\<rparr>) pid = Some st"
  by (auto simp: status_of_def proposal_with_id_def find_append_old)

lemma create_proposal_status:
  assumes "status_of conn pid = Some st"
  shows "status_of (fst (create_proposal conn payload created_at now)) pid = Some st"
proof (cases rule: create_proposal_effect [of conn payload created_at now])
  case (failed e)
  then show ?thesis using assms by simp
next
  case (created n row conn1)
  have old: "status_of conn1 pid = Some st"
    unfolding created(6) using assms by (rule status_of_append)
  have "proposal_with_id conn pid \<noteq> None" using assms by (auto simp: status_of_def)
  then have "pid \<in> set (map p_id (proposals conn))"
    by (simp add: proposal_with_id_None_iff)
  then have "pid \<noteq> p_id row"
    using next_rowid_fresh [of "proposals_seq conn" "map p_id (proposals conn)"]
    by (auto simp: created(5) image_iff)
  then have "status_of (update_status conn1 expired (p_id row)) pid = Some st"
    using old by (simp add: status_of_update_status)
  then show ?thesis using created(8) old by simp
qed

lemma submit_vote_status:
  assumes "status_of conn pid = Some st"
  shows "status_of (fst (submit_vote conn q payload now voted_at)) pid = Some st \<or>
         (st = active \<and> status_of (fst (submit_vote conn q payload now voted_at)) pid = Some expired)"
proof (cases rule: submit_vote_effect [of conn q payload now voted_at])
  case (unchanged e)
  then show ?thesis using assms by simp
next
  case (expired row)
  then have "lazy_expiry conn (update_status conn expired q)"
    by (simp add: lazy_expiry_update_status status_of_def)
  then show ?thesis using expired(4) assms lazy_expiry_status by simp
next
  case (inserted row v)
  then show ?thesis using assms by simp
qed

lemma revoke_vote_status:
  assumes "status_of conn pid = Some st"
  shows "status_of (fst (revoke_vote conn vid now)) pid = Some st \<or>
         (st = active \<and> status_of (fst (revoke_vote conn vid now)) pid = Some expired)"
proof (cases rule: revoke_vote_effect [of conn vid now])
  case (unchanged e)
  then show ?thesis using assms by simp
next
  case (expired v row)
  then have "lazy_expiry conn (update_status conn expired (v_proposal_id v))"
    by (simp add: lazy_expiry_update_status status_of_def)
  then show ?thesis using expired(5) assms lazy_expiry_status by simp
next
  case (deleted v row)
  then show ?thesis using assms by simp
qed

lemma close_proposal_status:
  assumes "status_of conn pid = Some st"
  shows "status_of (fst (close_proposal conn q tok now)) pid = Some st \<or>
         (status_of (fst (close_proposal conn q tok now)) pid = Some closed \<and>
          q = pid \<and> tok = Some ADMIN_TOKEN)"
proof (cases rule: close_proposal_effect [of conn q tok now])
  case forbidden
  then show ?thesis using assms by simp
next
  case overflow
  then show ?thesis using assms by simp
next
  case missing
  then show ?thesis using assms by simp
next
  case (closes row)
  then show ?thesis using assms by (auto simp: status_of_update_status)
qed

lemma step_status:
  assumes "status_of conn pid = Some st"
  shows "\<exists>st'. status_of (step conn r) pid = Some st' \<and>
           (st' = st \<or> (st = active \<and> st' = expired) \<or>
            (st' = closed \<and> (\<exists>now. r = PatchClose pid (Some ADMIN_TOKEN) now)))"
proof (cases r)
  case (PostProposal b created_at now)
  then show ?thesis
    using assms create_proposal_status [OF assms]
    by (simp add: post_proposal_def split: sum.splits)
next
  case (GetProposals clock)
  then show ?thesis
    using lazy_expiry_status [OF lazy_expiry_get_proposals assms, of clock] by auto
next
  case (GetProposal q now)
  then show ?thesis
    using lazy_expiry_status [OF lazy_expiry_get_proposal assms, of q now] by auto
next
  case (PostVote q b now voted_at)
  then show ?thesis
    using assms submit_vote_status [OF assms, of q _ now voted_at]
    by (auto simp: post_vote_def split: sum.splits)
next
  case (DeleteVote vid now)
  then show ?thesis using revoke_vote_status [OF assms, of vid now] by auto
next
  case (PatchClose q tok now)
  then show ?thesis using close_proposal_status [OF assms, of q tok now] by auto
next
  case GetVotes
  then show ?thesis using assms by simp
next
  case GetHealth
  then show ?thesis using assms by simp
qed

lemma run_Nil [simp]: "run conn [] = conn"
  by (simp add: run_def)

lemma run_Cons [simp]: "run conn (r # rs) = run (step conn r) rs"
  by (simp add: run_def)

lemma run_status_closed:
  "status_of conn pid = Some closed \<Longrightarrow> status_of (run conn rs) pid = Some closed"
proof (induction rs arbitrary: conn)
  case Nil
  then show ?case by simp
next
  case (Cons r rs)
  from step_status [OF Cons.prems, of r]
  have "status_of (step conn r) pid = Some closed" by auto
  then show ?case using Cons.IH by simp
qed

lemma run_status_not_active:
  "status_of conn pid = Some st \<Longrightarrow> st \<noteq> active \<Longrightarrow>
     status_of (run conn rs) pid = Some expired \<or> status_of (run conn rs) pid = Some closed"
proof (induction rs arbitrary: conn st)
  case Nil
  then show ?case by (cases st) auto
next
  case (Cons r rs)
  from step_status [OF Cons.prems(1), of r] Cons.prems(2)
  obtain st' where "status_of (step conn r) pid = Some st'" "st' \<noteq> active"
    by auto
  then show ?case using Cons.IH by simp
qed


lemma proposal_out_fields [simp]:
  "out_status (proposal_out row t) = p_status row"
  "out_deadline (proposal_out row t) = p_deadline row"
  "out_created_at (proposal_out row t) = p_created_at row"
  "out_id (proposal_out row t) = p_id row"
  "out_title (proposal_out row t) = p_title row"
  "out_description (proposal_out row t) = p_description row"
  by (simp_all add: proposal_out_def)








lemma votes_example [simp]:
  "votes example_db =
     [\<lparr>v_id = 1, v_proposal_id = 1, v_voter_name = ''Alice'', v_vote = ''yes'', v_voted_at = 5\<rparr>,
      \<lparr>v_id = 3, v_proposal_id = 1, v_voter_name = ''Carol'', v_vote = ''abstain'',
        v_voted_at = 7\<rparr>]"
  "votes_seq example_db = 3" "proposals_seq example_db = 2"
  by (simp_all add: example_db_def)


lemma get_proposals_example:
  "get_proposals example_db (\<lambda>_. 20) =
     (example_db,
      Inr [example_out active,
           \<lparr>out_id = 2, out_title = ''Pool'', out_description = ''Fix the pool'',
            out_created_at = 10, out_deadline = 10, out_status = expired,
            yes_count = 0, no_count = 0, abstain_count = 0\<rparr>])"
proof -
  have "select_proposal_ids example_db = [1, 2]"
    by (simp add: select_proposal_ids_def example_db_def)
  then show ?thesis
    by (simp add: get_proposals_def get_proposal_or_404_keeps [OF proposal_with_id_example]
        get_proposal_or_404_keeps [OF proposal_with_id_example2]
        tally_votes_example proposal_out_def example_out_def)
qed



lemma submit_vote_example:
  "submit_vote example_db 1 \<lparr>voter_name = ''Dave'', vote = ''no''\<rparr> 20 21 =
     (example_db\<lparr>votes := votes example_db @ [example_vote], votes_seq := 4\<rparr>, Inr example_vote)"
proof -
  have "select_vote_of example_db 1 ''Dave'' = None"
    by (simp add: select_vote_of_def)
  then show ?thesis
    using submit_vote_inserts [OF proposal_with_id_example, of 20
        "\<lparr>voter_name = ''Dave'', vote = ''no''\<rparr>" example_vote 21]
    by (simp add: example_vote_def next_rowid_def)
qed

lemma revoke_vote_example:
  "revoke_vote example_db 3 20 = (delete_vote example_db 3, Inr ())"
proof -
  have "vote_with_id example_db 3 =
      Some \<lparr>v_id = 3, v_proposal_id = 1, v_voter_name = ''Carol'', v_vote = ''abstain'',
            v_voted_at = 7\<rparr>"
    by (simp add: vote_with_id_def)
  then show ?thesis
    using revoke_vote_deletes [of example_db 3 _ _ 20] proposal_with_id_example by simp
qed


lemma integrity_init_db: "integrity init_db"
  by (simp add: integrity_def init_db_def)

lemma integrity_cong:
  "votes b = votes a \<Longrightarrow> map p_id (proposals b) = map p_id (proposals a) \<Longrightarrow>
     integrity a \<Longrightarrow> integrity b"
  unfolding integrity_def by (simp only:) blast

lemma integrity_lazy_expiry: "lazy_expiry a b \<Longrightarrow> integrity a \<Longrightarrow> integrity b"
  by (rule integrity_cong) (simp_all add: lazy_expiry_def)

lemma integrity_update_status: "integrity conn \<Longrightarrow> integrity (update_status conn st pid)"
  by (rule integrity_cong [of _ conn]) simp_all

lemma integrity_insert_proposal:
  assumes "integrity conn" "p_id row \<notin> set (map p_id (proposals conn))"
  shows "integrity (conn\<lparr>proposals := proposals conn @ [row], proposals_seq := k\<rparr>)"
  using assms by (auto simp: integrity_def)

lemma integrity_insert_vote:
  assumes "integrity conn" "v_id v \<notin> set (map v_id (votes conn))"
    "select_vote_of conn (v_proposal_id v) (v_voter_name v) = None"
    "v_vote v \<in> {''yes'', ''no'', ''abstain''}"
    "proposal_with_id conn (v_proposal_id v) = Some row"
  shows "integrity (conn\<lparr>votes := votes conn @ [v], votes_seq := k\<rparr>)"
proof -
  have "(v_proposal_id v, v_voter_name v) \<notin>
          set (map (\<lambda>v. (v_proposal_id v, v_voter_name v)) (votes conn))"
    using assms(3) by (simp add: select_vote_of_None_iff)
  moreover have "v_proposal_id v \<in> set (map p_id (proposals conn))"
    using assms(5) proposal_with_id_None_iff [of conn "v_proposal_id v"] by simp
  ultimately show ?thesis
    using assms(1,2,4) by (auto simp: integrity_def)
qed

lemma integrity_delete_vote: "integrity conn \<Longrightarrow> integrity (delete_vote conn vid)"
  by (auto simp: integrity_def delete_vote_def distinct_map_filter)

lemma integrity_create_proposal:
  assumes "integrity conn"
  shows "integrity (fst (create_proposal conn payload created_at now))"
proof (cases rule: create_proposal_effect [of conn payload created_at now])
  case (failed e)
  then show ?thesis using assms by simp
next
  case (created n row conn1)
  have "p_id row \<notin> set (map p_id (proposals conn))"
    using next_rowid_fresh [of "proposals_seq conn" "map p_id (proposals conn)"]
    by (simp add: created(5))
  then have "integrity conn1"
    unfolding created(6) using assms by (simp add: integrity_insert_proposal)
  then show ?thesis using created(8) by (simp add: integrity_update_status)
qed

lemma integrity_submit_vote:
  assumes "integrity conn"
  shows "integrity (fst (submit_vote conn q payload now voted_at))"
proof (cases rule: submit_vote_effect [of conn q payload now voted_at])
  case (unchanged e)
  then show ?thesis using assms by simp
next
  case (expired row)
  then show ?thesis using assms by (simp add: integrity_update_status)
next
  case (inserted row v)
  have "v_id v \<notin> set (map v_id (votes conn))"
    using next_rowid_fresh [of "votes_seq conn" "map v_id (votes conn)"] inserted(6) by simp
  then have "integrity (conn\<lparr>votes := votes conn @ [v], votes_seq := v_id v\<rparr>)"
    using assms inserted by (intro integrity_insert_vote [where row = row]) simp_all
  then show ?thesis using inserted(7) by simp
qed

lemma integrity_revoke_vote:
  assumes "integrity conn"
  shows "integrity (fst (revoke_vote conn vid now))"
proof (cases rule: revoke_vote_effect [of conn vid now])
  case (unchanged e)
  then show ?thesis using assms by simp
next
  case (expired v row)
  then show ?thesis using assms by (simp add: integrity_update_status)
next
  case (deleted v row)
  then show ?thesis using assms by (simp add: integrity_delete_vote)
qed

lemma integrity_close_proposal:
  assumes "integrity conn"
  shows "integrity (fst (close_proposal conn q tok now))"
proof (cases rule: close_proposal_effect [of conn q tok now])
  case forbidden
  then show ?thesis using assms by simp
next
  case overflow
  then show ?thesis using assms by simp
next
  case missing
  then show ?thesis using assms by simp
next
  case (closes row)
  then show ?thesis using assms by (simp add: integrity_update_status)
qed

lemma integrity_step: "integrity conn \<Longrightarrow> integrity (step conn r)"
proof (cases r)
  case (PostProposal b created_at now)
  assume "integrity conn"
  then show ?thesis
    using PostProposal integrity_create_proposal [of conn]
    by (simp add: post_proposal_def split: sum.splits)
next
  case (GetProposals clock)
  assume "integrity conn"
  then show ?thesis
    using GetProposals integrity_lazy_expiry [OF lazy_expiry_get_proposals] by simp
next
  case (GetProposal q now)
  assume "integrity conn"
  then show ?thesis
    using GetProposal integrity_lazy_expiry [OF lazy_expiry_get_proposal] by simp
next
  case (PostVote q b now voted_at)
  assume "integrity conn"
  then show ?thesis
    using PostVote integrity_submit_vote [of conn]
    by (simp add: post_vote_def split: sum.splits)
next
  case (DeleteVote vid now)
  assume "integrity conn"
  then show ?thesis using DeleteVote by (simp add: integrity_revoke_vote)
next
  case (PatchClose q tok now)
  assume "integrity conn"
  then show ?thesis using PatchClose by (simp add: integrity_close_proposal)
next
  case GetVotes
  assume "integrity conn"
  then show ?thesis using GetVotes by simp
next
  case GetHealth
  assume "integrity conn"
  then show ?thesis using GetHealth by simp
qed

lemma integrity_run: "integrity conn \<Longrightarrow> integrity (run conn rs)"
  by (induction rs arbitrary: conn) (simp_all add: integrity_step)

lemma integrity_reachable: "integrity (run init_db rs)"
  by (rule integrity_run [OF integrity_init_db])

lemma length_filter_unique:
  "distinct (map v_id xs) \<Longrightarrow> find (\<lambda>v. v_id v = vid) xs = Some v \<Longrightarrow>
     length (filter (\<lambda>v. v_id v \<noteq> vid) xs) + 1 = length xs"
proof (induction xs)
  case Nil
  then show ?case by simp
next
  case (Cons x xs)
  show ?case
  proof (cases "v_id x = vid")
    case True
    then have "\<forall>y\<in>set xs. v_id y \<noteq> vid" using Cons.prems(1) by (auto simp: image_iff)
    then have "filter (\<lambda>v. v_id v \<noteq> vid) xs = xs" by (simp add: filter_id_conv)
    then show ?thesis using True by simp
  next
    case False
    then show ?thesis using Cons by simp
  qed
qed

lemma integrity_example: "integrity example_db"
  by (simp add: integrity_def example_db_def)

lemma vote_with_id_example:
  "vote_with_id example_db 3 =
      Some \<lparr>v_id = 3, v_proposal_id = 1, v_voter_name = ''Carol'', v_vote = ''abstain'',
            v_voted_at = 7\<rparr>"
  "vote_with_id example_db 2 = None"
  by (simp_all add: vote_with_id_def)

lemma distinct_map_filter_le_1:
  "distinct (map f xs) \<Longrightarrow> length (filter (\<lambda>x. f x = k) xs) \<le> 1"
proof (induction xs)
  case Nil
  then show ?case by simp
next
  case (Cons x xs)
  show ?case
  proof (cases "f x = k")
    case True
    then have "\<forall>y\<in>set xs. f y \<noteq> k" using Cons.prems by (auto simp: image_iff)
    then have "filter (\<lambda>x. f x = k) xs = []" by (simp add: filter_empty_conv)
    then show ?thesis using True by simp
  next
    case False
    then show ?thesis using Cons by simp
  qed
qed

lemma integrity_at_most_one:
  assumes "integrity conn"
  shows "length (votes_of_voter conn pid name) \<le> 1"
proof -
  have "distinct (map (\<lambda>v. (v_proposal_id v, v_voter_name v)) (votes conn))"
    using assms by (simp add: integrity_def)
  from distinct_map_filter_le_1 [OF this, of "(pid, name)"]
  show ?thesis by (simp add: votes_of_voter_def)
qed

lemma vote_exists_iff: "vote_exists conn pid name \<longleftrightarrow> select_vote_of conn pid name \<noteq> None"
  by (simp add: vote_exists_def select_vote_of_None_iff)

lemma submit_vote_duplicate_outcome:
  assumes "vote_exists conn pid (voter_name payload)"
  shows "votes (fst (submit_vote conn pid payload now voted_at)) = votes conn"
    and "\<exists>e. snd (submit_vote conn pid payload now voted_at) = Inl e \<and>
           (e = AlreadyVoted \<or> e = VotingNotAllowed \<or> e = ProposalNotFound \<or>
            e = OverflowError \<and> \<not> sqlite_int pid)"
    and "effective_status conn pid now = Some active \<Longrightarrow>
           submit_vote conn pid payload now voted_at = (conn, Inl AlreadyVoted)"
proof -
  obtain x where x: "select_vote_of conn pid (voter_name payload) = Some x"
    using assms by (auto simp: vote_exists_iff)
  show "votes (fst (submit_vote conn pid payload now voted_at)) = votes conn"
    by (cases rule: submit_vote_effect [of conn pid payload now voted_at]) (use x in auto)
  show "\<exists>e. snd (submit_vote conn pid payload now voted_at) = Inl e \<and>
           (e = AlreadyVoted \<or> e = VotingNotAllowed \<or> e = ProposalNotFound \<or>
            e = OverflowError \<and> \<not> sqlite_int pid)"
  proof (cases "sqlite_int pid")
    case False
    then show ?thesis by (simp add: submit_vote_overflow)
  next
    case bound: True
    show ?thesis
    proof (cases "proposal_with_id conn pid")
      case None
      then show ?thesis using bound by (simp add: submit_vote_missing)
    next
      case (Some row)
      show ?thesis
      proof (cases "p_status row = active")
        case False
        then show ?thesis using Some bound by (simp add: submit_vote_not_active)
      next
        case True
        then show ?thesis
          using Some x submit_vote_expires [OF Some True _ bound, of now payload voted_at]
            submit_vote_duplicate [OF Some True _ x bound, of now voted_at]
          by (cases "now > p_deadline row") auto
      qed
    qed
  qed
  show "submit_vote conn pid payload now voted_at = (conn, Inl AlreadyVoted)"
    if "effective_status conn pid now = Some active"
  proof (cases rule: get_proposal_or_404_cases [of conn pid now])
    case overflow
    then show ?thesis using that by (simp add: effective_status_def)
  next
    case missing
    then show ?thesis using that by (simp add: effective_status_def)
  next
    case (expires row)
    then show ?thesis using that by (simp add: effective_status_def)
  next
    case (keeps row)
    then have "p_status row = active" using that by (simp add: effective_status_def)
    then show ?thesis using keeps x submit_vote_duplicate by blast
  qed
qed

lemma effective_status_eq:
  "effective_status conn pid now =
     (if \<not> sqlite_int pid then None
      else case proposal_with_id conn pid of
        None \<Rightarrow> None
      | Some row \<Rightarrow>
          Some (if p_status row = active \<and> now > p_deadline row then expired
                else p_status row))"
  by (cases rule: get_proposal_or_404_cases [of conn pid now])
     (auto simp: effective_status_def)

lemma effective_status_Some:
  assumes "effective_status conn pid now = Some st"
  obtains row where "sqlite_int pid" "proposal_with_id conn pid = Some row"
    "st = (if p_status row = active \<and> now > p_deadline row then expired else p_status row)"
  using assms by (auto simp: effective_status_eq split: option.splits if_splits)

lemma submit_vote_inactive:
  assumes "effective_status conn pid now = Some st" "st \<noteq> active"
  shows "snd (submit_vote conn pid payload now voted_at) = Inl VotingNotAllowed"
    and "votes (fst (submit_vote conn pid payload now voted_at)) = votes conn"
    and "status_of (fst (submit_vote conn pid payload now voted_at)) pid = Some st"
proof -
  obtain row where bound: "sqlite_int pid" and row: "proposal_with_id conn pid = Some row"
    and st: "st = (if p_status row = active \<and> now > p_deadline row then expired
                   else p_status row)"
    using assms(1) by (rule effective_status_Some)
  have "snd (submit_vote conn pid payload now voted_at) = Inl VotingNotAllowed \<and>
        votes (fst (submit_vote conn pid payload now voted_at)) = votes conn \<and>
        status_of (fst (submit_vote conn pid payload now voted_at)) pid = Some st"
  proof (cases "p_status row = active")
    case True
    then have late: "now > p_deadline row" and st': "st = expired"
      using assms(2) st by (auto split: if_splits)
    have "status_of conn pid = Some active" using row True by (simp add: status_of_def)
    then show ?thesis
      using submit_vote_expires [OF row True late bound, of payload voted_at] st'
      by (simp add: status_of_update_status)
  next
    case False
    then have "st = p_status row" using st by simp
    then show ?thesis
      using submit_vote_not_active [OF row False bound, of payload now voted_at] row
      by (simp add: status_of_def)
  qed
  then show "snd (submit_vote conn pid payload now voted_at) = Inl VotingNotAllowed"
    and "votes (fst (submit_vote conn pid payload now voted_at)) = votes conn"
    and "status_of (fst (submit_vote conn pid payload now voted_at)) pid = Some st"
    by simp_all
qed

lemma revoke_vote_inactive:
  assumes "vote_with_id conn vid = Some w" "sqlite_int vid"
    "effective_status conn (v_proposal_id w) now = Some st" "st \<noteq> active"
  shows "snd (revoke_vote conn vid now) = Inl RevokeNotAllowed"
    and "votes (fst (revoke_vote conn vid now)) = votes conn"
    and "status_of (fst (revoke_vote conn vid now)) (v_proposal_id w) = Some st"
proof -
  obtain row where bound: "sqlite_int (v_proposal_id w)"
    and row: "proposal_with_id conn (v_proposal_id w) = Some row"
    and st: "st = (if p_status row = active \<and> now > p_deadline row then expired
                   else p_status row)"
    using assms(3) by (rule effective_status_Some)
  have "snd (revoke_vote conn vid now) = Inl RevokeNotAllowed \<and>
        votes (fst (revoke_vote conn vid now)) = votes conn \<and>
        status_of (fst (revoke_vote conn vid now)) (v_proposal_id w) = Some st"
  proof (cases "p_status row = active")
    case True
    then have late: "now > p_deadline row" and st': "st = expired"
      using assms(4) st by (auto split: if_splits)
    have "status_of conn (v_proposal_id w) = Some active"
      using row True by (simp add: status_of_def)
    then show ?thesis
      using revoke_vote_expires [OF assms(1) row True late assms(2) bound] st'
      by (simp add: status_of_update_status)
  next
    case False
    then have "st = p_status row" using st by simp
    then show ?thesis
      using revoke_vote_not_active [OF assms(1) row False assms(2) bound, of now] row
      by (simp add: status_of_def)
  qed
  then show "snd (revoke_vote conn vid now) = Inl RevokeNotAllowed"
    and "votes (fst (revoke_vote conn vid now)) = votes conn"
    and "status_of (fst (revoke_vote conn vid now)) (v_proposal_id w) = Some st"
    by simp_all
qed

lemma submit_vote_succeeds:
  assumes "effective_status conn pid now = Some active"
    "\<not> vote_exists conn pid (voter_name payload)"
    "vote payload \<in> {''yes'', ''no'', ''abstain''}"
    "sqlite_int (next_rowid (votes_seq conn) (map v_id (votes conn)))"
  shows "\<exists>v. submit_vote conn pid payload now voted_at =
               (conn\<lparr>votes := votes conn @ [v], votes_seq := v_id v\<rparr>, Inr v) \<and>
             v_proposal_id v = pid \<and> v_voter_name v = voter_name payload \<and>
             v_vote v = vote payload \<and> v_voted_at v = voted_at"
proof -
  obtain row where bound: "sqlite_int pid" and row: "proposal_with_id conn pid = Some row"
    and st: "active = (if p_status row = active \<and> now > p_deadline row then expired
                       else p_status row)"
    using assms(1) by (rule effective_status_Some)
  have act: "p_status row = active" and late: "\<not> now > p_deadline row"
    using st by (auto split: if_splits)
  have none: "select_vote_of conn pid (voter_name payload) = None"
    using assms(2) by (simp add: vote_exists_iff)
  let ?v = "\<lparr>v_id = next_rowid (votes_seq conn) (map v_id (votes conn)),
             v_proposal_id = pid, v_voter_name = voter_name payload,
             v_vote = vote payload, v_voted_at = voted_at\<rparr>"
  have r: "sqlite_int (v_id ?v)" using assms(4) by simp
  from submit_vote_inserts [OF row act late none assms(3) refl bound r]
  show ?thesis by auto
qed

lemma revoke_vote_frees_pair:
  assumes "integrity conn" "vote_with_id conn vid = Some w"
  shows "\<not> vote_exists (delete_vote conn vid) (v_proposal_id w) (v_voter_name w)"
proof
  let ?key = "\<lambda>v. (v_proposal_id v, v_voter_name v)"
  assume "vote_exists (delete_vote conn vid) (v_proposal_id w) (v_voter_name w)"
  then obtain u where u: "u \<in> set (votes conn)" "v_id u \<noteq> vid" "?key u = ?key w"
    by (auto simp: vote_exists_def delete_vote_def)
  have w: "w \<in> set (votes conn)" "v_id w = vid"
    using assms(2) by (auto simp: vote_with_id_def find_Some_iff)
  have "inj_on ?key (set (votes conn))"
    using assms(1) by (simp add: integrity_def distinct_map)
  then have "u = w" using u(1,3) w(1) by (auto dest: inj_onD)
  then show False using u(2) w(2) by simp
qed

lemma vote_exists_example:
  "vote_exists example_db 1 ''Alice''" "\<not> vote_exists example_db 1 ''Dave''"
  by (simp_all add: vote_exists_def)

lemma tally_votes_votes_of:
  "votes_of a pid = votes_of b pid \<Longrightarrow> tally_votes a pid = tally_votes b pid"
proof -
  assume eq: "votes_of a pid = votes_of b pid"
  have "count_votes c pid ch = length (filter (\<lambda>v. v_vote v = ch) (votes_of c pid))" for c ch
    by (simp add: count_votes_def votes_of_def conj_commute)
  then show ?thesis using eq by (simp add: tally_votes_counts)
qed

lemma votes_of_lazy_expiry: "lazy_expiry a b \<Longrightarrow> votes_of b pid = votes_of a pid"
  by (simp add: lazy_expiry_def votes_of_def)

lemma votes_of_update_status [simp]: "votes_of (update_status conn st q) pid = votes_of conn pid"
  by (simp add: votes_of_def)

lemma votes_of_proposals_update [simp]:
  "votes_of (conn\<lparr>proposals := ps, proposals_seq := k\<rparr>) pid = votes_of conn pid"
  by (simp add: votes_of_def)

lemma create_proposal_votes_of:
  "votes_of (fst (create_proposal conn payload created_at now)) pid = votes_of conn pid"
proof (cases rule: create_proposal_effect [of conn payload created_at now])
  case (failed e)
  then show ?thesis by simp
next
  case (created n row conn1)
  then show ?thesis by simp
qed

lemma close_proposal_votes_of:
  "votes_of (fst (close_proposal conn q tok now)) pid = votes_of conn pid"
  by (cases rule: close_proposal_effect [of conn q tok now]) simp_all

lemma submit_vote_votes_of:
  assumes "status_of conn pid = Some st" "st \<noteq> active"
  shows "votes_of (fst (submit_vote conn q payload now voted_at)) pid = votes_of conn pid"
proof (cases rule: submit_vote_effect [of conn q payload now voted_at])
  case (unchanged e)
  then show ?thesis by simp
next
  case (expired row)
  then show ?thesis by simp
next
  case (inserted row v)
  then have "q \<noteq> pid" using assms by (auto simp: status_of_def)
  then show ?thesis using inserted by (simp add: votes_of_def)
qed

lemma revoke_vote_votes_of:
  assumes "integrity conn" "status_of conn pid = Some st" "st \<noteq> active"
  shows "votes_of (fst (revoke_vote conn vid now)) pid = votes_of conn pid"
proof (cases rule: revoke_vote_effect [of conn vid now])
  case (unchanged e)
  then show ?thesis by simp
next
  case (expired v row)
  then show ?thesis by simp
next
  case (deleted v row)
  then have ne: "v_proposal_id v \<noteq> pid" using assms by (auto simp: status_of_def)
  have v: "v \<in> set (votes conn)" "v_id v = vid"
    using deleted(1) by (auto simp: vote_with_id_def find_Some_iff)
  have inj: "inj_on v_id (set (votes conn))"
    using assms(1) by (simp add: integrity_def distinct_map)
  have "\<forall>u\<in>set (votes conn). v_proposal_id u = pid \<longrightarrow> v_id u \<noteq> vid"
  proof (intro ballI impI notI)
    fix u assume u: "u \<in> set (votes conn)" "v_proposal_id u = pid" "v_id u = vid"
    then have "u = v" using inj v by (auto dest: inj_onD)
    then show False using u(2) ne by simp
  qed
  then have "filter (\<lambda>u. v_proposal_id u = pid) (filter (\<lambda>u. v_id u \<noteq> vid) (votes conn)) =
             filter (\<lambda>u. v_proposal_id u = pid) (votes conn)"
    by (auto intro: filter_cong)
  then show ?thesis using deleted(5) by (simp add: votes_of_def delete_vote_def)
qed

lemma step_votes_of:
  assumes "integrity conn" "status_of conn pid = Some st" "st \<noteq> active"
  shows "votes_of (step conn r) pid = votes_of conn pid"
proof (cases r)
  case (PostProposal b created_at now)
  then show ?thesis
    by (simp add: post_proposal_def create_proposal_votes_of split: sum.splits)
next
  case (GetProposals clock)
  then show ?thesis by (simp add: votes_of_lazy_expiry [OF lazy_expiry_get_proposals])
next
  case (GetProposal q now)
  then show ?thesis by (simp add: votes_of_lazy_expiry [OF lazy_expiry_get_proposal])
next
  case (PostVote q b now voted_at)
  then show ?thesis
    using submit_vote_votes_of [OF assms(2,3)]
    by (simp add: post_vote_def split: sum.splits)
next
  case (DeleteVote vid now)
  then show ?thesis using revoke_vote_votes_of [OF assms] by simp
next
  case (PatchClose q tok now)
  then show ?thesis by (simp add: close_proposal_votes_of)
next
  case GetVotes
  then show ?thesis by simp
next
  case GetHealth
  then show ?thesis by simp
qed

lemma step_status_not_active:
  assumes "status_of conn pid = Some st" "st \<noteq> active"
  shows "\<exists>st'. status_of (step conn r) pid = Some st' \<and> st' \<noteq> active"
  using step_status [OF assms(1), of r] assms(2) by auto

lemma run_votes_of:
  "integrity conn \<Longrightarrow> status_of conn pid = Some st \<Longrightarrow> st \<noteq> active \<Longrightarrow>
     votes_of (run conn rs) pid = votes_of conn pid"
proof (induction rs arbitrary: conn st)
  case Nil
  then show ?case by simp
next
  case (Cons r rs)
  obtain st' where st': "status_of (step conn r) pid = Some st'" "st' \<noteq> active"
    using step_status_not_active [OF Cons.prems(2,3)] by blast
  have "votes_of (run (step conn r) rs) pid = votes_of (step conn r) pid"
    using Cons.IH [OF integrity_step [OF Cons.prems(1)] st'] .
  then show ?case using step_votes_of [OF Cons.prems] by simp
qed

lemma create_proposal_success:
  assumes "create_proposal conn payload created_at now = (conn', Inr out)"
  shows "\<exists>n row. days_open payload = Some n \<and> \<bar>n\<bar> \<le> 999999999 \<and>
           0 \<le> created_at + n * 86400000000 \<and>
           created_at + n * 86400000000 \<le> DATETIME_MAX \<and>
           proposal_with_id conn (p_id row) = None \<and>
           proposal_with_id conn' (p_id row) = Some row \<and>
           out = proposal_out row (tally_votes conn (p_id row)) \<and>
           p_title row = title payload \<and> p_description row = description payload \<and>
           p_created_at row = created_at \<and>
           p_deadline row = created_at + n * 86400000000 \<and>
           p_status row = (if now > p_deadline row then expired else active) \<and>
           p_id row = next_rowid (proposals_seq conn) (map p_id (proposals conn)) \<and>
           sqlite_int (p_id row)"
proof (cases rule: create_proposal_effect [of conn payload created_at now])
  case (failed e)
  then show ?thesis using assms by simp
next
  case (created n row conn1)
  note n = created(1-4) and row_def = created(5) and conn1_def = created(6)
    and room = created(7) and res = created(8)
  have fresh: "proposal_with_id conn (p_id row) = None"
    using next_rowid_fresh [of "proposals_seq conn" "map p_id (proposals conn)"]
    by (simp add: proposal_with_id_None_iff row_def)
  then have "\<forall>x\<in>set (proposals conn). \<not> p_id x = p_id row"
    by (auto simp: proposal_with_id_None_iff image_iff)
  then have sel: "proposal_with_id conn1 (p_id row) = Some row"
    by (simp add: proposal_with_id_def conn1_def find_append_fresh)
  show ?thesis
  proof (cases "now > p_deadline row")
    case True
    let ?row' = "row\<lparr>p_status := expired\<rparr>"
    have "conn' = update_status conn1 expired (p_id row)"
      and "out = proposal_out ?row' (tally_votes conn (p_id row))"
      using res assms True by simp_all
    moreover have "proposal_with_id (update_status conn1 expired (p_id row)) (p_id row) =
                     Some ?row'"
      using sel by (simp add: proposal_with_id_update_status)
    ultimately have
      "proposal_with_id conn (p_id ?row') = None \<and>
       proposal_with_id conn' (p_id ?row') = Some ?row' \<and>
       out = proposal_out ?row' (tally_votes conn (p_id ?row')) \<and>
       p_title ?row' = title payload \<and> p_description ?row' = description payload \<and>
       p_created_at ?row' = created_at \<and>
       p_deadline ?row' = created_at + n * 86400000000 \<and>
       p_status ?row' = (if now > p_deadline ?row' then expired else active) \<and>
       p_id ?row' = next_rowid (proposals_seq conn) (map p_id (proposals conn)) \<and>
       sqlite_int (p_id ?row')"
      using fresh True room by (simp add: row_def)
    then show ?thesis using n by blast
  next
    case False
    then have "conn' = conn1" and "out = proposal_out row (tally_votes conn (p_id row))"
      using res assms by simp_all
    then have
      "proposal_with_id conn (p_id row) = None \<and>
       proposal_with_id conn' (p_id row) = Some row \<and>
       out = proposal_out row (tally_votes conn (p_id row)) \<and>
       p_title row = title payload \<and> p_description row = description payload \<and>
       p_created_at row = created_at \<and>
       p_deadline row = created_at + n * 86400000000 \<and>
       p_status row = (if now > p_deadline row then expired else active) \<and>
       p_id row = next_rowid (proposals_seq conn) (map p_id (proposals conn)) \<and>
       sqlite_int (p_id row)"
      using fresh sel False room by (simp add: row_def)
    then show ?thesis using n by blast
  qed
qed

lemma zero_days_rejects_cast:
  assumes "create_proposal conn payload created_at t1 = (conn', Inr out)"
    "days_open payload = Some 0" "created_at < t1 \<or> created_at < now"
  shows "snd (submit_vote conn' (out_id out) vpayload now voted_at) = Inl VotingNotAllowed"
proof -
  from create_proposal_success [OF assms(1)] assms(2)
  obtain row where row: "proposal_with_id conn' (p_id row) = Some row"
    "out = proposal_out row (tally_votes conn (p_id row))"
    "p_deadline row = created_at"
    "p_status row = (if t1 > p_deadline row then expired else active)"
    "sqlite_int (p_id row)"
    by auto
  have "effective_status conn' (out_id out) now = Some expired"
    using row assms(3) by (auto simp: effective_status_eq)
  then show ?thesis by (rule submit_vote_inactive(1)) simp
qed

lemma closed_example:
  "integrity (update_status example_db closed 1)"
  "status_of (update_status example_db closed 1) 1 = Some closed"
  "effective_status (update_status example_db closed 1) 1 20 = Some closed"
  "vote_with_id (update_status example_db closed 1) 3 =
      Some \<lparr>v_id = 3, v_proposal_id = 1, v_voter_name = ''Carol'', v_vote = ''abstain'',
            v_voted_at = 7\<rparr>"
  by (simp_all add: integrity_update_status integrity_example status_of_update_status
      status_of_example effective_status_eq proposal_with_id_update_status
      proposal_with_id_example vote_with_id_def)

lemma create_zero_example:
  "snd (create_proposal example_db
          \<lparr>title = ''Bus'', description = ''More buses'', days_open = Some 0\<rparr> 100 101) =
     Inr \<lparr>out_id = 3, out_title = ''Bus'', out_description = ''More buses'',
          out_created_at = 100, out_deadline = 100, out_status = expired,
          yes_count = 0, no_count = 0, abstain_count = 0\<rparr>"
proof -
  have t: "tally_votes example_db 3 = (0, 0, 0)"
    by (simp add: tally_votes_counts count_votes_def)
  have "(0::int) \<le> 999999999 \<and> (0::int) \<le> 100 + 0 * 86400000000 \<and>
        (100::int) + 0 * 86400000000 \<le> DATETIME_MAX \<and>
        sqlite_int (next_rowid (proposals_seq example_db) (map p_id (proposals example_db)))"
    by (simp add: DATETIME_MAX_def next_rowid_def example_db_def)
  then show ?thesis
    using create_proposal_created [of "\<lparr>title = ''Bus'', description = ''More buses'',
        days_open = Some 0\<rparr>" 0 100 _ example_db _ 101, OF _ _ _ _ refl refl]
    by (simp add: t [unfolded example_db_def] proposal_out_def next_rowid_def example_db_def)
qed







lemma step_status_close:
  assumes "status_of conn pid = Some st" "sqlite_int pid"
  shows "status_of (step conn (PatchClose pid (Some ADMIN_TOKEN) now)) pid = Some closed"
proof -
  obtain row where row: "proposal_with_id conn pid = Some row"
    using assms(1) by (auto simp: status_of_def)
  show ?thesis
    using assms(1) by (simp add: close_proposal_authorized [OF row assms(2)] status_of_update_status)
qed

lemma run_status_expired:
  assumes "status_of conn pid = Some expired" "sqlite_int pid"
  shows "status_of (run conn rs) pid =
           Some (if \<exists>t. PatchClose pid (Some ADMIN_TOKEN) t \<in> set rs then closed else expired)"
  using assms(1)
proof (induction rs arbitrary: conn)
  case Nil
  then show ?case by simp
next
  case (Cons r rs)
  show ?case
  proof (cases "\<exists>t. r = PatchClose pid (Some ADMIN_TOKEN) t")
    case True
    then obtain t where r: "r = PatchClose pid (Some ADMIN_TOKEN) t" by blast
    have "status_of (step conn r) pid = Some closed"
      unfolding r by (rule step_status_close [OF Cons.prems assms(2)])
    then have "status_of (run (step conn r) rs) pid = Some closed"
      by (rule run_status_closed)
    moreover have "\<exists>t. PatchClose pid (Some ADMIN_TOKEN) t \<in> set (r # rs)"
      using r by auto
    ultimately show ?thesis by simp
  next
    case False
    from step_status [OF Cons.prems, of r] False
    have "status_of (step conn r) pid = Some expired" by auto
    from Cons.IH [OF this]
    have "status_of (run (step conn r) rs) pid =
            Some (if \<exists>t. PatchClose pid (Some ADMIN_TOKEN) t \<in> set rs then closed else expired)" .
    moreover have "(\<exists>t. PatchClose pid (Some ADMIN_TOKEN) t \<in> set (r # rs)) \<longleftrightarrow>
                   (\<exists>t. PatchClose pid (Some ADMIN_TOKEN) t \<in> set rs)"
      using False by auto
    ultimately show ?thesis by simp
  qed
qed

lemma get_proposal_or_404_settled:
  assumes "status_of conn pid = Some st" "st \<noteq> active" "sqlite_int pid"
  shows "\<exists>row. get_proposal_or_404 conn pid now = (conn, Inr row) \<and> p_status row = st"
proof -
  obtain row where row: "proposal_with_id conn pid = Some row" and st: "p_status row = st"
    using assms(1) by (auto simp: status_of_def)
  have "get_proposal_or_404 conn pid now = (conn, Inr row)"
    using row assms(2,3) st by (simp add: get_proposal_or_404_keeps)
  then show ?thesis using st by blast
qed












section \<open>The claims\<close>



text \<open>
  The claim C3 as written fails in its last part. Proposal 1 of the example expires at a
  resolution after its deadline; a close with the admin token then stores closed, and
  the next resolution returns the closed row, not the expired one.
\<close>

theorem resolution_after_close_counterexample:
  "get_proposal_or_404 example_db 1 172800000001 =
     (update_status example_db expired 1,
      Inr \<lparr>p_id = 1, p_title = ''Park'', p_description = ''Plant trees'', p_created_at = 0,
           p_deadline = 172800000000, p_status = expired\<rparr>)
   \<and> fst (close_proposal (update_status example_db expired 1) 1 (Some ADMIN_TOKEN)
             172800000002) =
       update_status (update_status example_db expired 1) closed 1
   \<and> get_proposal_or_404 (update_status (update_status example_db expired 1) closed 1) 1
         172800000003 =
       (update_status (update_status example_db expired 1) closed 1,
        Inr \<lparr>p_id = 1, p_title = ''Park'', p_description = ''Plant trees'', p_created_at = 0,
             p_deadline = 172800000000, p_status = closed\<rparr>)"
  by (simp add: get_proposal_or_404_def select_proposal_def close_proposal_def
      proposal_with_id_update_status proposal_with_id_example Let_def)

text \<open>
  C3, as the code has it. For every proposal that the \<open>SELECT\<close> finds,
  \<open>get_proposal_or_404\<close> loads the stored row. If the stored status is active and
  \<open>now\<close> is past the deadline, it writes status expired (to that proposal only, leaving
  the votes alone) and returns the updated row; otherwise it returns the stored row and
  the database unchanged. After the transition, whatever requests are served in between,
  every later resolution, at any clock reading, writes nothing; it returns status
  expired as long as none of those requests is a close of the proposal with the admin
  token, and status closed once there was one. The proposal is never active again.
\<close>

theorem get_proposal_or_404_resolves:
  assumes "select_proposal conn pid = Inr (Some row)"
  shows "(p_status row = active \<and> now > p_deadline row \<longrightarrow>
            get_proposal_or_404 conn pid now =
              (update_status conn expired pid, Inr (row\<lparr>p_status := expired\<rparr>))
            \<and> proposal_with_id (update_status conn expired pid) pid =
                Some (row\<lparr>p_status := expired\<rparr>)
            \<and> (\<forall>q. q \<noteq> pid \<longrightarrow>
                  proposal_with_id (update_status conn expired pid) q = proposal_with_id conn q)
            \<and> votes (update_status conn expired pid) = votes conn
            \<and> (\<forall>now'. get_proposal_or_404 (update_status conn expired pid) pid now' =
                  (update_status conn expired pid, Inr (row\<lparr>p_status := expired\<rparr>)))
            \<and> (\<forall>rs now'. \<exists>row'.
                  get_proposal_or_404 (run (update_status conn expired pid) rs) pid now' =
                    (run (update_status conn expired pid) rs, Inr row') \<and>
                  p_status row' =
                    (if \<exists>t. PatchClose pid (Some ADMIN_TOKEN) t \<in> set rs then closed
                     else expired)))
       \<and> (\<not> (p_status row = active \<and> now > p_deadline row) \<longrightarrow>
            get_proposal_or_404 conn pid now = (conn, Inr row))"
proof -
  have bound: "sqlite_int pid" and sel: "proposal_with_id conn pid = Some row"
    using assms by (simp_all add: select_proposal_def split: if_splits)
  let ?conn' = "update_status conn expired pid"
  let ?row' = "row\<lparr>p_status := expired\<rparr>"
  have stored: "proposal_with_id ?conn' pid = Some ?row'"
    using sel by (simp add: proposal_with_id_update_status)
  have later: "\<exists>row'. get_proposal_or_404 (run ?conn' rs) pid now' = (run ?conn' rs, Inr row') \<and>
          p_status row' =
            (if \<exists>t. PatchClose pid (Some ADMIN_TOKEN) t \<in> set rs then closed else expired)"
    for rs now'
  proof -
    let ?st = "if \<exists>t. PatchClose pid (Some ADMIN_TOKEN) t \<in> set rs then closed else expired"
    have "status_of ?conn' pid = Some expired" using stored by (simp add: status_of_def)
    then have "status_of (run ?conn' rs) pid = Some ?st"
      using bound by (rule run_status_expired)
    moreover have "?st \<noteq> active" by simp
    ultimately show ?thesis using bound by (rule get_proposal_or_404_settled)
  qed
  show ?thesis
  proof (intro conjI impI allI)
    assume due: "p_status row = active \<and> now > p_deadline row"
    show "get_proposal_or_404 conn pid now = (?conn', Inr ?row')"
      using sel due bound by (simp add: get_proposal_or_404_expires)
    show "proposal_with_id ?conn' pid = Some ?row'" by (rule stored)
    show "votes ?conn' = votes conn" by simp
    show "get_proposal_or_404 ?conn' pid now' = (?conn', Inr ?row')" for now'
      using stored bound by (simp add: get_proposal_or_404_keeps)
    show "\<exists>row'. get_proposal_or_404 (run ?conn' rs) pid now' = (run ?conn' rs, Inr row') \<and>
          p_status row' =
            (if \<exists>t. PatchClose pid (Some ADMIN_TOKEN) t \<in> set rs then closed else expired)"
      for rs now'
      by (rule later)
  next
    fix q assume "q \<noteq> pid"
    then show "proposal_with_id (update_status conn expired pid) q = proposal_with_id conn q"
      by (simp add: proposal_with_id_update_status)
  next
    assume "\<not> (p_status row = active \<and> now > p_deadline row)"
    with sel show "get_proposal_or_404 conn pid now = (conn, Inr row)"
      using bound by (rule get_proposal_or_404_keeps)
  qed
qed

theorem get_proposal_or_404_resolves_witness:
  "select_proposal example_db 1 =
     Inr (Some \<lparr>p_id = 1, p_title = ''Park'', p_description = ''Plant trees'', p_created_at = 0,
                p_deadline = 172800000000, p_status = active\<rparr>)
   \<and> get_proposal_or_404 example_db 1 172800000001 =
       (update_status example_db expired 1,
        Inr \<lparr>p_id = 1, p_title = ''Park'', p_description = ''Plant trees'', p_created_at = 0,
             p_deadline = 172800000000, p_status = expired\<rparr>)
   \<and> get_proposal_or_404 (update_status example_db expired 1) 1 172800000002 =
       (update_status example_db expired 1,
        Inr \<lparr>p_id = 1, p_title = ''Park'', p_description = ''Plant trees'', p_created_at = 0,
             p_deadline = 172800000000, p_status = expired\<rparr>)
   \<and> get_proposal_or_404 example_db 1 172800000000 =
       (example_db,
        Inr \<lparr>p_id = 1, p_title = ''Park'', p_description = ''Plant trees'', p_created_at = 0,
             p_deadline = 172800000000, p_status = active\<rparr>)
   \<and> (\<exists>row'. get_proposal_or_404
                 (run (update_status example_db expired 1)
                    [GetProposal 1 172800000002, PatchClose 1 None 172800000003]) 1
                 172800000004 =
               (run (update_status example_db expired 1)
                  [GetProposal 1 172800000002, PatchClose 1 None 172800000003], Inr row') \<and>
              p_status row' = expired)
   \<and> (\<exists>row'. get_proposal_or_404
                 (run (update_status example_db expired 1)
                    [PatchClose 1 (Some ADMIN_TOKEN) 172800000002]) 1 172800000003 =
               (run (update_status example_db expired 1)
                  [PatchClose 1 (Some ADMIN_TOKEN) 172800000002], Inr row') \<and>
              p_status row' = closed)"
proof -
  let ?row = "\<lparr>p_id = 1, p_title = ''Park'', p_description = ''Plant trees'', p_created_at = 0,
               p_deadline = 172800000000, p_status = active\<rparr>"
  have sel: "select_proposal example_db 1 = Inr (Some ?row)"
    by (simp add: select_proposal_def proposal_with_id_example)
  note late = get_proposal_or_404_resolves [OF sel, of 172800000001]
  note early = get_proposal_or_404_resolves [OF sel, of 172800000000]
  have seq: "\<exists>row'. get_proposal_or_404 (run (update_status example_db expired 1) rs) 1 now' =
                 (run (update_status example_db expired 1) rs, Inr row') \<and>
               p_status row' =
                 (if \<exists>t. PatchClose 1 (Some ADMIN_TOKEN) t \<in> set rs then closed else expired)"
    for rs now'
    using late by simp
  have a: "\<exists>row'. get_proposal_or_404
                 (run (update_status example_db expired 1)
                    [GetProposal 1 172800000002, PatchClose 1 None 172800000003]) 1
                 172800000004 =
               (run (update_status example_db expired 1)
                  [GetProposal 1 172800000002, PatchClose 1 None 172800000003], Inr row') \<and>
              p_status row' = expired"
    using seq [of "[GetProposal 1 172800000002, PatchClose 1 None 172800000003]" 172800000004]
    by simp
  have b: "\<exists>row'. get_proposal_or_404
                 (run (update_status example_db expired 1)
                    [PatchClose 1 (Some ADMIN_TOKEN) 172800000002]) 1 172800000003 =
               (run (update_status example_db expired 1)
                  [PatchClose 1 (Some ADMIN_TOKEN) 172800000002], Inr row') \<and>
              p_status row' = closed"
    using seq [of "[PatchClose 1 (Some ADMIN_TOKEN) 172800000002]" 172800000003]
    by simp
  show ?thesis using sel late early a b by simp
qed

text \<open>
  C10. For every proposal id, existing or not, and every credential other than the admin
  token, an absent one included, \<open>close_proposal\<close> fails with Forbidden and leaves the
  database unchanged: no expiry is written, and the answer is the same whatever the
  database holds.
\<close>

theorem close_proposal_forbidden:
  assumes "x_admin_token \<noteq> Some ADMIN_TOKEN"
  shows "close_proposal conn proposal_id x_admin_token now = (conn, Inl AdminTokenRequired)
         \<and> kind AdminTokenRequired = Forbidden
         \<and> snd (close_proposal conn' proposal_id' x_admin_token now') =
             snd (close_proposal conn proposal_id x_admin_token now)"
  using assms by (simp add: close_proposal_def)

theorem close_proposal_forbidden_witness:
  "None \<noteq> Some ADMIN_TOKEN \<and> Some ''secret'' \<noteq> Some ADMIN_TOKEN
   \<and> close_proposal example_db 1 None 172800000001 = (example_db, Inl AdminTokenRequired)
   \<and> close_proposal example_db 9 (Some ''secret'') 5 = (example_db, Inl AdminTokenRequired)"
proof -
  have a: "None \<noteq> Some ADMIN_TOKEN" by simp
  have b: "Some ''secret'' \<noteq> Some ADMIN_TOKEN" by (simp add: ADMIN_TOKEN_def)
  show ?thesis
    using a b close_proposal_forbidden [OF a, of example_db 1 172800000001]
      close_proposal_forbidden [OF b, of example_db 9 5]
    by simp
qed

text \<open>
  The claim C1 as written fails: the proposal with id 2 is expired, and closing it with
  the admin token succeeds and stores status closed.
\<close>

theorem close_proposal_not_active_counterexample:
  "effective_status example_db 2 20 = Some expired
   \<and> close_proposal example_db 2 (Some ADMIN_TOKEN) 20 =
       (update_status example_db closed 2,
        Inr \<lparr>out_id = 2, out_title = ''Pool'', out_description = ''Fix the pool'',
             out_created_at = 10, out_deadline = 10, out_status = closed,
             yes_count = 0, no_count = 0, abstain_count = 0\<rparr>)
   \<and> status_of (update_status example_db closed 2) 2 = Some closed"
  by (simp add: effective_status_example close_proposal_authorized [OF proposal_with_id_example2]
      proposal_out_def tally_votes_example status_of_update_status status_of_example)

text \<open>
  C1, as the code has it, for a proposal id that fits in 64 bits. With the admin token,
  closing a proposal that the \<open>SELECT\<close> finds succeeds whatever its stored or effective
  status (active, closed, expired, or active with the deadline passed): it stores status
  closed and returns the proposal as closed. With the admin token and no such proposal
  it fails with NotFound; with another credential or none it fails with Forbidden. For
  such an id close fails with nothing else, and for every id it never fails with
  InvalidState.
\<close>

theorem close_proposal_closes:
  "(select_proposal conn pid = Inr (Some row) \<longrightarrow>
      close_proposal conn pid (Some ADMIN_TOKEN) now =
        (update_status conn closed pid,
         Inr (proposal_out (row\<lparr>p_status := closed\<rparr>) (tally_votes conn pid)))
      \<and> out_status (proposal_out (row\<lparr>p_status := closed\<rparr>) (tally_votes conn pid)) = closed
      \<and> status_of (update_status conn closed pid) pid = Some closed)
   \<and> (select_proposal conn pid = Inr None \<longrightarrow>
        close_proposal conn pid (Some ADMIN_TOKEN) now = (conn, Inl ProposalNotFound))
   \<and> (x_admin_token \<noteq> Some ADMIN_TOKEN \<longrightarrow>
        close_proposal conn pid x_admin_token now = (conn, Inl AdminTokenRequired))
   \<and> (sqlite_int pid \<longrightarrow>
        (\<forall>e. snd (close_proposal conn pid x_admin_token now) = Inl e \<longrightarrow>
           (e = ProposalNotFound \<and> x_admin_token = Some ADMIN_TOKEN \<and>
              proposal_with_id conn pid = None) \<or>
           (e = AdminTokenRequired \<and> x_admin_token \<noteq> Some ADMIN_TOKEN)))
   \<and> (\<forall>e. snd (close_proposal conn pid x_admin_token now) = Inl e \<longrightarrow> kind e \<noteq> InvalidState)"
proof (intro conjI impI allI)
  assume "select_proposal conn pid = Inr (Some row)"
  then have bound: "sqlite_int pid" and sel: "proposal_with_id conn pid = Some row"
    by (simp_all add: select_proposal_def split: if_splits)
  show "close_proposal conn pid (Some ADMIN_TOKEN) now =
        (update_status conn closed pid,
         Inr (proposal_out (row\<lparr>p_status := closed\<rparr>) (tally_votes conn pid)))"
    by (rule close_proposal_authorized [OF sel bound])
  show "out_status (proposal_out (row\<lparr>p_status := closed\<rparr>) (tally_votes conn pid)) = closed"
    by (simp add: proposal_out_def)
  show "status_of (update_status conn closed pid) pid = Some closed"
  proof -
    have "status_of conn pid = Some (p_status row)" using sel by (simp add: status_of_def)
    then show ?thesis by (simp add: status_of_update_status)
  qed
next
  assume "select_proposal conn pid = Inr None"
  then have "sqlite_int pid" and "proposal_with_id conn pid = None"
    by (simp_all add: select_proposal_def split: if_splits)
  then show "close_proposal conn pid (Some ADMIN_TOKEN) now = (conn, Inl ProposalNotFound)"
    by (simp add: close_proposal_missing)
next
  assume "x_admin_token \<noteq> Some ADMIN_TOKEN"
  then show "close_proposal conn pid x_admin_token now = (conn, Inl AdminTokenRequired)"
    by (simp add: close_proposal_def)
next
  fix e assume bound: "sqlite_int pid"
    and e: "snd (close_proposal conn pid x_admin_token now) = Inl e"
  show "(e = ProposalNotFound \<and> x_admin_token = Some ADMIN_TOKEN \<and>
              proposal_with_id conn pid = None) \<or>
           (e = AdminTokenRequired \<and> x_admin_token \<noteq> Some ADMIN_TOKEN)"
    by (cases rule: close_proposal_effect [of conn pid x_admin_token now])
       (use e bound in auto)
next
  fix e assume e: "snd (close_proposal conn pid x_admin_token now) = Inl e"
  show "kind e \<noteq> InvalidState"
    by (cases rule: close_proposal_effect [of conn pid x_admin_token now])
       (use e in auto)
qed

theorem close_proposal_closes_witness:
  "select_proposal example_db 1 =
     Inr (Some \<lparr>p_id = 1, p_title = ''Park'', p_description = ''Plant trees'', p_created_at = 0,
                p_deadline = 172800000000, p_status = active\<rparr>)
   \<and> effective_status example_db 1 172800000001 = Some expired
   \<and> fst (close_proposal example_db 1 (Some ADMIN_TOKEN) 172800000001) =
       update_status example_db closed 1
   \<and> status_of (update_status example_db closed 1) 1 = Some closed
   \<and> select_proposal example_db 9 = Inr None
   \<and> close_proposal example_db 9 (Some ADMIN_TOKEN) 20 = (example_db, Inl ProposalNotFound)
   \<and> sqlite_int 9
   \<and> close_proposal example_db 9 None 20 = (example_db, Inl AdminTokenRequired)
   \<and> kind AdminTokenRequired \<noteq> InvalidState"
  using close_proposal_closes [of example_db 1
      "\<lparr>p_id = 1, p_title = ''Park'', p_description = ''Plant trees'', p_created_at = 0,
        p_deadline = 172800000000, p_status = active\<rparr>" 172800000001 None]
    close_proposal_closes [of example_db 9
      "\<lparr>p_id = 1, p_title = ''Park'', p_description = ''Plant trees'', p_created_at = 0,
        p_deadline = 172800000000, p_status = active\<rparr>" 20 None]
  by (simp add: select_proposal_def proposal_with_id_example proposal_with_id_example9
      effective_status_example close_proposal_def)

text \<open>
  The claim C2 as written fails: a proposal created with \<open>days_open = 0\<close> is expired
  once the clock has moved, and a later close with the admin token changes its status
  from expired to closed.
\<close>

theorem expired_not_terminal_counterexample:
  "status_of (run init_db
       [PostProposal \<lparr>body_title = ''Pool'', body_description = ''Fix the pool'',
                       body_days_open = Given 0\<rparr> 10 11]) 1 = Some expired
   \<and> status_of (run init_db
       [PostProposal \<lparr>body_title = ''Pool'', body_description = ''Fix the pool'',
                       body_days_open = Given 0\<rparr> 10 11,
        PatchClose 1 (Some ADMIN_TOKEN) 20]) 1 = Some closed"
  by (simp add: init_db_def post_proposal_def validate_ProposalCreate_def
      create_proposal_def timedelta_days_def datetime_add_def DATETIME_MAX_def
      insert_proposal_def next_rowid_def get_proposal_or_404_def select_proposal_def
      sqlite_int_def proposal_with_id_def update_status_def close_proposal_def status_of_def
      Let_def)

text \<open>
  C2, as the code has it. A stored status changes only from active to expired (lazy
  expiry, in any operation) or to closed, and the latter only in a close of that
  proposal with the admin token. Closed is terminal. Expired is left only by such a
  close, which makes it closed. No operation deletes a proposal or returns it to active.
\<close>

theorem status_transitions:
  "(status_of conn pid = Some st \<longrightarrow>
      (\<exists>st'. status_of (step conn r) pid = Some st' \<and>
         (st' = st \<or> (st = active \<and> st' = expired) \<or>
          (st' = closed \<and> (\<exists>now. r = PatchClose pid (Some ADMIN_TOKEN) now)))))
   \<and> (status_of conn pid = Some closed \<longrightarrow> status_of (run conn rs) pid = Some closed)
   \<and> (status_of conn pid = Some expired \<longrightarrow>
        status_of (run conn rs) pid = Some expired \<or> status_of (run conn rs) pid = Some closed)"
  using step_status [of conn pid st r] run_status_closed [of conn pid rs]
    run_status_not_active [of conn pid expired rs]
  by simp

theorem status_transitions_witness:
  "status_of example_db 2 = Some expired
   \<and> status_of (step example_db (GetProposal 2 30)) 2 = Some expired
   \<and> (status_of (run example_db [GetProposal 2 30, PatchClose 2 (Some ADMIN_TOKEN) 40]) 2 =
         Some expired
       \<or> status_of (run example_db [GetProposal 2 30, PatchClose 2 (Some ADMIN_TOKEN) 40]) 2 =
         Some closed)
   \<and> status_of (update_status example_db closed 1) 1 = Some closed
   \<and> status_of (run (update_status example_db closed 1)
         [PostVote 1 \<lparr>voter_name = ''Dave'', vote = ''no''\<rparr> 50 51, GetProposal 1 60]) 1 =
       Some closed"
  using status_transitions [of example_db 2 expired "GetProposal 2 30"
      "[GetProposal 2 30, PatchClose 2 (Some ADMIN_TOKEN) 40]"]
    status_transitions [of "update_status example_db closed 1" 1 closed "GetProposal 1 60"
      "[PostVote 1 \<lparr>voter_name = ''Dave'', vote = ''no''\<rparr> 50 51, GetProposal 1 60]"]
  by (simp add: status_of_example status_of_update_status)




text \<open>
  C9. The claim holds for every vote id that fits in 64 bits, and the code departs from
  it outside: \<open>revoke_vote\<close> hands the id of the request to \<open>sqlite3\<close>, which cannot
  bind \<open>9223372036854775808\<close>, so that request ends in an uncaught \<open>OverflowError\<close>
  (status 500) and not in NotFound, although no vote has that id. The database is
  unchanged then too. For an id that can be bound and has no vote, \<open>revoke_vote\<close>
  fails with NotFound and leaves the database unchanged. On success the new database is
  the old one without the vote rows of that id: the other votes stay, in their order,
  and the proposals table and both id counters are the same. The id is a primary key,
  so in every reachable database exactly one row goes.
\<close>

theorem revoke_vote_frame:
  "vote_with_id example_db 9223372036854775808 = None
   \<and> revoke_vote example_db 9223372036854775808 20 = (example_db, Inl OverflowError)
   \<and> status_code OverflowError = 500 \<and> kind OverflowError = Unhandled
   \<and> (\<not> sqlite_int vid \<longrightarrow> revoke_vote conn vid now = (conn, Inl OverflowError))
   \<and> (select_vote conn vid = Inr None \<longrightarrow>
        revoke_vote conn vid now = (conn, Inl VoteNotFound) \<and> kind VoteNotFound = NotFound)
   \<and> (revoke_vote conn vid now = (conn', Inr ()) \<longrightarrow>
        vote_with_id conn vid \<noteq> None \<and>
        conn' = conn\<lparr>votes := filter (\<lambda>v. v_id v \<noteq> vid) (votes conn)\<rparr> \<and>
        proposals conn' = proposals conn \<and>
        vote_with_id conn' vid = None \<and>
        (\<forall>w. w \<noteq> vid \<longrightarrow> vote_with_id conn' w = vote_with_id conn w) \<and>
        (integrity conn \<longrightarrow> length (votes conn') + 1 = length (votes conn)))
   \<and> integrity (run init_db rs)"
proof (intro conjI impI allI)
  show "vote_with_id example_db 9223372036854775808 = None"
    by (simp add: vote_with_id_def)
next
  show "revoke_vote example_db 9223372036854775808 20 = (example_db, Inl OverflowError)"
    by (simp add: revoke_vote_def select_vote_def)
next
  show "status_code OverflowError = 500" by simp
next
  show "kind OverflowError = Unhandled" by simp
next
  assume "\<not> sqlite_int vid"
  then show "revoke_vote conn vid now = (conn, Inl OverflowError)"
    by (rule revoke_vote_overflow)
next
  assume "select_vote conn vid = Inr None"
  then have "vote_with_id conn vid = None" "sqlite_int vid"
    by (simp_all add: select_vote_def split: if_splits)
  then show "revoke_vote conn vid now = (conn, Inl VoteNotFound)"
    by (rule revoke_vote_missing)
next
  show "kind VoteNotFound = NotFound" by simp
next
  show "integrity (run init_db rs)" by (rule integrity_reachable)
next
  assume ok: "revoke_vote conn vid now = (conn', Inr ())"
  have del: "conn' = delete_vote conn vid \<and> vote_with_id conn vid \<noteq> None"
    by (cases rule: revoke_vote_effect [of conn vid now]) (use ok in auto)
  then show "vote_with_id conn vid \<noteq> None" by simp
  show eq: "conn' = conn\<lparr>votes := filter (\<lambda>v. v_id v \<noteq> vid) (votes conn)\<rparr>"
    using del by (simp add: delete_vote_def)
  then show "proposals conn' = proposals conn" by simp
  show "vote_with_id conn' vid = None"
    using eq by (simp add: vote_with_id_def find_None_iff)
  show "vote_with_id conn' w = vote_with_id conn w" if "w \<noteq> vid" for w
  proof -
    have "find (\<lambda>v. v_id v = w) (filter (\<lambda>v. v_id v \<noteq> vid) xs) = find (\<lambda>v. v_id v = w) xs"
      for xs using that by (induction xs) auto
    then show ?thesis using eq by (simp add: vote_with_id_def)
  qed
  show "length (votes conn') + 1 = length (votes conn)" if "integrity conn"
  proof -
    obtain v where "find (\<lambda>v. v_id v = vid) (votes conn) = Some v"
      using del by (auto simp: vote_with_id_def)
    moreover have "distinct (map v_id (votes conn))" using that by (simp add: integrity_def)
    ultimately show ?thesis using eq length_filter_unique by simp
  qed
qed

theorem revoke_vote_frame_witness:
  "\<not> sqlite_int 9223372036854775808
   \<and> revoke_vote init_db 9223372036854775808 0 = (init_db, Inl OverflowError)
   \<and> select_vote example_db 2 = Inr None
   \<and> revoke_vote example_db 2 20 = (example_db, Inl VoteNotFound)
   \<and> revoke_vote example_db 3 20 = (delete_vote example_db 3, Inr ())
   \<and> integrity example_db
   \<and> proposals (delete_vote example_db 3) = proposals example_db
   \<and> length (votes (delete_vote example_db 3)) + 1 = length (votes example_db)"
  using revoke_vote_frame [of 9223372036854775808 init_db 0 init_db "[]"]
    revoke_vote_frame [of 2 example_db 20 example_db "[]"]
    revoke_vote_frame [of 3 example_db 20 "delete_vote example_db 3" "[]"]
  by (simp add: select_vote_def vote_with_id_example revoke_vote_example integrity_example)

text \<open>
  The claim C5 as written fails: Alice has a vote on proposal 1, and her second cast,
  made after the deadline, fails with InvalidState and not with Conflict, because the
  status test comes before the duplicate test.
\<close>

theorem second_cast_not_conflict_counterexample:
  "vote_exists example_db 1 ''Alice''
   \<and> submit_vote example_db 1 \<lparr>voter_name = ''Alice'', vote = ''no''\<rparr>
         172800000001 172800000002 =
       (update_status example_db expired 1, Inl VotingNotAllowed)
   \<and> kind VotingNotAllowed = InvalidState"
  by (simp add: vote_exists_example submit_vote_expires [OF proposal_with_id_example])

text \<open>
  C5, as the code has it. In every reachable database a voter has at most one vote on a
  proposal. When a vote for the pair exists, a second cast inserts nothing and fails:
  with Conflict when the proposal's effective status is active (and then the database is
  unchanged), with InvalidState when it is closed or expired; it is never an upsert.
  After a successful revoke of that vote the pair is free again, and a new cast with a
  valid choice on the still active proposal inserts the replacement, as long as the
  \<open>votes\<close> table has an id left for it.
\<close>

theorem one_vote_per_voter:
  "length (votes_of_voter (run init_db rs) pid name) \<le> 1
   \<and> (vote_exists conn pid (voter_name payload) \<longrightarrow>
        votes (fst (submit_vote conn pid payload now voted_at)) = votes conn
        \<and> (\<exists>e. snd (submit_vote conn pid payload now voted_at) = Inl e \<and>
              (e = AlreadyVoted \<or> e = VotingNotAllowed \<or> e = ProposalNotFound \<or>
               e = OverflowError \<and> \<not> sqlite_int pid))
        \<and> (effective_status conn pid now = Some active \<longrightarrow>
              submit_vote conn pid payload now voted_at = (conn, Inl AlreadyVoted) \<and>
              kind AlreadyVoted = Conflict)
        \<and> (effective_status conn pid now = Some closed \<or>
            effective_status conn pid now = Some expired \<longrightarrow>
              snd (submit_vote conn pid payload now voted_at) = Inl VotingNotAllowed \<and>
              kind VotingNotAllowed = InvalidState))
   \<and> (integrity conn \<and> vote_with_id conn vid = Some w \<and>
        revoke_vote conn vid now = (conn', Inr ()) \<longrightarrow>
          \<not> vote_exists conn' (v_proposal_id w) (v_voter_name w))
   \<and> (\<not> vote_exists conn pid (voter_name payload) \<and>
        effective_status conn pid now = Some active \<and>
        vote payload \<in> {''yes'', ''no'', ''abstain''} \<and>
        sqlite_int (next_rowid (votes_seq conn) (map v_id (votes conn))) \<longrightarrow>
          (\<exists>v. submit_vote conn pid payload now voted_at =
                 (conn\<lparr>votes := votes conn @ [v], votes_seq := v_id v\<rparr>, Inr v) \<and>
               v_proposal_id v = pid \<and> v_voter_name v = voter_name payload \<and>
               v_vote v = vote payload \<and> v_voted_at v = voted_at))"
proof (intro conjI impI)
  show "length (votes_of_voter (run init_db rs) pid name) \<le> 1"
    by (rule integrity_at_most_one [OF integrity_reachable])
next
  assume ex: "vote_exists conn pid (voter_name payload)"
  show "votes (fst (submit_vote conn pid payload now voted_at)) = votes conn"
    by (rule submit_vote_duplicate_outcome(1) [OF ex])
  show "\<exists>e. snd (submit_vote conn pid payload now voted_at) = Inl e \<and>
              (e = AlreadyVoted \<or> e = VotingNotAllowed \<or> e = ProposalNotFound \<or>
               e = OverflowError \<and> \<not> sqlite_int pid)"
    by (rule submit_vote_duplicate_outcome(2) [OF ex])
  show "submit_vote conn pid payload now voted_at = (conn, Inl AlreadyVoted)"
    if "effective_status conn pid now = Some active"
    by (rule submit_vote_duplicate_outcome(3) [OF ex that])
  show "snd (submit_vote conn pid payload now voted_at) = Inl VotingNotAllowed"
    if "effective_status conn pid now = Some closed \<or>
        effective_status conn pid now = Some expired"
    using that submit_vote_inactive(1) [of conn pid now _ payload voted_at] by auto
next
  show "kind AlreadyVoted = Conflict" by simp
next
  show "kind VotingNotAllowed = InvalidState" by simp
next
  assume a: "integrity conn \<and> vote_with_id conn vid = Some w \<and>
        revoke_vote conn vid now = (conn', Inr ())"
  have "conn' = delete_vote conn vid"
    by (cases rule: revoke_vote_effect [of conn vid now]) (use a in auto)
  then show "\<not> vote_exists conn' (v_proposal_id w) (v_voter_name w)"
    using a revoke_vote_frees_pair by simp
next
  assume "\<not> vote_exists conn pid (voter_name payload) \<and>
        effective_status conn pid now = Some active \<and>
        vote payload \<in> {''yes'', ''no'', ''abstain''} \<and>
        sqlite_int (next_rowid (votes_seq conn) (map v_id (votes conn)))"
  then show "\<exists>v. submit_vote conn pid payload now voted_at =
                 (conn\<lparr>votes := votes conn @ [v], votes_seq := v_id v\<rparr>, Inr v) \<and>
               v_proposal_id v = pid \<and> v_voter_name v = voter_name payload \<and>
               v_vote v = vote payload \<and> v_voted_at v = voted_at"
    using submit_vote_succeeds by blast
qed

theorem one_vote_per_voter_witness:
  "vote_exists example_db 1 ''Alice''
   \<and> effective_status example_db 1 20 = Some active
   \<and> submit_vote example_db 1 \<lparr>voter_name = ''Alice'', vote = ''no''\<rparr> 20 21 =
       (example_db, Inl AlreadyVoted)
   \<and> effective_status example_db 1 172800000001 = Some expired
   \<and> snd (submit_vote example_db 1 \<lparr>voter_name = ''Alice'', vote = ''no''\<rparr>
            172800000001 172800000002) = Inl VotingNotAllowed
   \<and> integrity example_db
   \<and> revoke_vote example_db 3 20 = (delete_vote example_db 3, Inr ())
   \<and> \<not> vote_exists (delete_vote example_db 3) 1 ''Carol''
   \<and> \<not> vote_exists example_db 1 ''Dave''
   \<and> sqlite_int (next_rowid (votes_seq example_db) (map v_id (votes example_db)))
   \<and> snd (submit_vote example_db 1 \<lparr>voter_name = ''Dave'', vote = ''no''\<rparr> 20 21) =
       Inr example_vote"
  using one_vote_per_voter [of "[]" 1 "''Alice''" example_db
      "\<lparr>voter_name = ''Alice'', vote = ''no''\<rparr>" 20 21 3
      "\<lparr>v_id = 3, v_proposal_id = 1, v_voter_name = ''Carol'', v_vote = ''abstain'',
        v_voted_at = 7\<rparr>" "delete_vote example_db 3"]
    one_vote_per_voter [of "[]" 1 "''Alice''" example_db
      "\<lparr>voter_name = ''Alice'', vote = ''no''\<rparr>" 172800000001 172800000002 3
      "\<lparr>v_id = 3, v_proposal_id = 1, v_voter_name = ''Carol'', v_vote = ''abstain'',
        v_voted_at = 7\<rparr>" "delete_vote example_db 3"]
    one_vote_per_voter [of "[]" 1 "''Dave''" example_db
      "\<lparr>voter_name = ''Dave'', vote = ''no''\<rparr>" 20 21 3
      "\<lparr>v_id = 3, v_proposal_id = 1, v_voter_name = ''Carol'', v_vote = ''abstain'',
        v_voted_at = 7\<rparr>" "delete_vote example_db 3"]
  by (simp add: vote_exists_example effective_status_example integrity_example
      vote_with_id_example revoke_vote_example submit_vote_example next_rowid_def)

text \<open>
  The claim C6 as written fails in its last part: a proposal created with
  \<open>days_open = 0\<close> has its deadline equal to its creation instant, the expiry test is
  \<open>now > deadline\<close>, and so at clock readings equal to the creation instant the proposal
  is active and a cast succeeds.
\<close>

theorem zero_days_cast_counterexample:
  "snd (create_proposal init_db
          \<lparr>title = ''Pool'', description = ''Fix the pool'', days_open = Some 0\<rparr> 10 10) =
     Inr \<lparr>out_id = 1, out_title = ''Pool'', out_description = ''Fix the pool'',
          out_created_at = 10, out_deadline = 10, out_status = active,
          yes_count = 0, no_count = 0, abstain_count = 0\<rparr>
   \<and> snd (submit_vote
            (fst (create_proposal init_db
                    \<lparr>title = ''Pool'', description = ''Fix the pool'', days_open = Some 0\<rparr>
                    10 10))
            1 \<lparr>voter_name = ''Alice'', vote = ''yes''\<rparr> 10 10) =
       Inr \<lparr>v_id = 1, v_proposal_id = 1, v_voter_name = ''Alice'', v_vote = ''yes'',
            v_voted_at = 10\<rparr>"
  by (simp add: init_db_def create_proposal_def timedelta_days_def datetime_add_def
      DATETIME_MAX_def insert_proposal_def next_rowid_def get_proposal_or_404_def
      select_proposal_def select_vote_def sqlite_int_def
      proposal_with_id_def proposal_out_def tally_votes_counts count_votes_def
      submit_vote_def select_vote_of_def insert_vote_def vote_with_id_def Let_def)

text \<open>
  C6, as the code has it. When the effective status of a proposal is closed or expired,
  every cast and every revoke of one of its votes (a vote that the \<open>SELECT\<close> by id
  finds) fails with InvalidState, the stored votes are unchanged and the stored status
  is that effective status. From then on, in every reachable database and through every
  sequence of requests, the votes of the proposal and its tally stay as they are. A proposal created with \<open>days_open = 0\<close>
  rejects a cast with InvalidState as soon as one clock reading, of the creation's own
  resolution or of the cast, is later than its creation instant.
\<close>

theorem inactive_proposal_frozen:
  "(effective_status conn pid now = Some st \<and> st \<noteq> active \<longrightarrow>
      snd (submit_vote conn pid payload now voted_at) = Inl VotingNotAllowed \<and>
      kind VotingNotAllowed = InvalidState \<and>
      votes (fst (submit_vote conn pid payload now voted_at)) = votes conn \<and>
      status_of (fst (submit_vote conn pid payload now voted_at)) pid = Some st)
   \<and> (select_vote conn vid = Inr (Some w) \<and>
        effective_status conn (v_proposal_id w) now = Some st \<and> st \<noteq> active \<longrightarrow>
      snd (revoke_vote conn vid now) = Inl RevokeNotAllowed \<and>
      kind RevokeNotAllowed = InvalidState \<and>
      votes (fst (revoke_vote conn vid now)) = votes conn \<and>
      status_of (fst (revoke_vote conn vid now)) (v_proposal_id w) = Some st)
   \<and> (integrity conn \<and> status_of conn pid = Some st \<and> st \<noteq> active \<longrightarrow>
      votes_of (run conn rs) pid = votes_of conn pid \<and>
      tally_votes (run conn rs) pid = tally_votes conn pid)
   \<and> (create_proposal conn cpayload created_at t1 = (conn', Inr out) \<and>
        days_open cpayload = Some 0 \<and> (created_at < t1 \<or> created_at < now) \<longrightarrow>
      snd (submit_vote conn' (out_id out) payload now voted_at) = Inl VotingNotAllowed)"
proof (intro conjI impI)
  assume a: "effective_status conn pid now = Some st \<and> st \<noteq> active"
  then have e: "effective_status conn pid now = Some st" and n: "st \<noteq> active" by simp_all
  show "snd (submit_vote conn pid payload now voted_at) = Inl VotingNotAllowed"
    by (rule submit_vote_inactive(1) [OF e n])
  show "votes (fst (submit_vote conn pid payload now voted_at)) = votes conn"
    by (rule submit_vote_inactive(2) [OF e n])
  show "status_of (fst (submit_vote conn pid payload now voted_at)) pid = Some st"
    by (rule submit_vote_inactive(3) [OF e n])
next
  show "kind VotingNotAllowed = InvalidState" by simp
next
  show "kind RevokeNotAllowed = InvalidState" by simp
next
  assume a: "select_vote conn vid = Inr (Some w) \<and>
        effective_status conn (v_proposal_id w) now = Some st \<and> st \<noteq> active"
  then have s: "vote_with_id conn vid = Some w" and b: "sqlite_int vid"
    and e: "effective_status conn (v_proposal_id w) now = Some st" and n: "st \<noteq> active"
    by (simp_all add: select_vote_def split: if_splits)
  show "snd (revoke_vote conn vid now) = Inl RevokeNotAllowed"
    by (rule revoke_vote_inactive(1) [OF s b e n])
  show "votes (fst (revoke_vote conn vid now)) = votes conn"
    by (rule revoke_vote_inactive(2) [OF s b e n])
  show "status_of (fst (revoke_vote conn vid now)) (v_proposal_id w) = Some st"
    by (rule revoke_vote_inactive(3) [OF s b e n])
next
  assume a: "integrity conn \<and> status_of conn pid = Some st \<and> st \<noteq> active"
  then show v: "votes_of (run conn rs) pid = votes_of conn pid"
    using run_votes_of by blast
  then show "tally_votes (run conn rs) pid = tally_votes conn pid"
    by (rule tally_votes_votes_of)
next
  assume "create_proposal conn cpayload created_at t1 = (conn', Inr out) \<and>
        days_open cpayload = Some 0 \<and> (created_at < t1 \<or> created_at < now)"
  then show "snd (submit_vote conn' (out_id out) payload now voted_at) = Inl VotingNotAllowed"
    using zero_days_rejects_cast by blast
qed

theorem inactive_proposal_frozen_witness:
  "effective_status (update_status example_db closed 1) 1 20 = Some closed
   \<and> select_vote (update_status example_db closed 1) 3 =
       Inr (Some \<lparr>v_id = 3, v_proposal_id = 1, v_voter_name = ''Carol'', v_vote = ''abstain'',
                  v_voted_at = 7\<rparr>)
   \<and> snd (submit_vote (update_status example_db closed 1) 1
            \<lparr>voter_name = ''Dave'', vote = ''no''\<rparr> 20 21) = Inl VotingNotAllowed
   \<and> snd (revoke_vote (update_status example_db closed 1) 3 20) = Inl RevokeNotAllowed
   \<and> integrity (update_status example_db closed 1)
   \<and> tally_votes (run (update_status example_db closed 1)
         [DeleteVote 3 20, PostVote 1 \<lparr>voter_name = ''Dave'', vote = ''no''\<rparr> 20 21]) 1 =
       (1, 0, 1)
   \<and> snd (submit_vote
            (fst (create_proposal example_db
                    \<lparr>title = ''Bus'', description = ''More buses'', days_open = Some 0\<rparr>
                    100 101))
            3 \<lparr>voter_name = ''Dave'', vote = ''no''\<rparr> 100 100) = Inl VotingNotAllowed"
proof -
  let ?c = "update_status example_db closed 1"
  let ?V = "\<lparr>voter_name = ''Dave'', vote = ''no''\<rparr>"
  let ?w = "\<lparr>v_id = 3, v_proposal_id = 1, v_voter_name = ''Carol'', v_vote = ''abstain'',
            v_voted_at = 7\<rparr>"
  let ?P = "\<lparr>title = ''Bus'', description = ''More buses'', days_open = Some 0\<rparr>"
  let ?out = "\<lparr>out_id = 3, out_title = ''Bus'', out_description = ''More buses'',
          out_created_at = 100, out_deadline = 100, out_status = expired,
          yes_count = 0, no_count = 0, abstain_count = 0\<rparr>"
  let ?rs = "[DeleteVote 3 20, PostVote 1 ?V 20 21]"
  note a = inactive_proposal_frozen [of ?c 1 20 closed ?V 21 3 ?w ?rs ?P 100 101
      "fst (create_proposal example_db ?P 100 101)" ?out]
  note b = inactive_proposal_frozen [of example_db 3 100 closed ?V 100 3 ?w ?rs ?P 100 101
      "fst (create_proposal example_db ?P 100 101)" ?out]
  have cr: "create_proposal example_db ?P 100 101 =
              (fst (create_proposal example_db ?P 100 101), Inr ?out)"
    by (simp add: prod_eq_iff create_zero_example)
  have t: "tally_votes ?c 1 = (1, 0, 1)"
    using tally_votes_cong [of ?c example_db 1] by (simp add: tally_votes_example)
  have 1: "snd (submit_vote ?c 1 ?V 20 21) = Inl VotingNotAllowed"
    and 2: "snd (revoke_vote ?c 3 20) = Inl RevokeNotAllowed"
    and 3: "tally_votes (run ?c ?rs) 1 = (1, 0, 1)"
    using a closed_example t by (simp_all add: select_vote_def)
  have 4: "snd (submit_vote (fst (create_proposal example_db ?P 100 101)) 3 ?V 100 100) =
             Inl VotingNotAllowed"
    using b cr by simp
  show ?thesis using 1 2 3 4 closed_example by (simp add: select_vote_def)
qed




end
